theory Spec2Isabelle
  imports Main
begin

section \<open>The record store\<close>

text \<open>
  The three tables of the family-tree backend. Identifiers are the UUID strings the
  handlers pass around; a nullable column is an \<open>option\<close>. A table is the list of its
  rows, in insertion order.
\<close>

type_synonym ident = string

record member =
  m_id :: ident
  first_name :: string
  middle_name :: "string option"
  last_name :: string
  dob :: "string option"
  dod :: "string option"
  is_alive :: bool

record relationship_type =
  rt_id :: ident
  rt_name :: string
  inverse_type_id :: "ident option"

record relationship =
  r_id :: ident
  member_id_1 :: ident
  relationship_type_id :: ident
  member_id_2 :: ident

record database =
  members :: "member list"
  relationship_types :: "relationship_type list"
  relationships :: "relationship list"

datatype error = TypeError | DbError string

text \<open>
  An SQL statement reads the tables and gives either an error or its result rows with
  the new tables.
\<close>

type_synonym 'a sql = "database \<Rightarrow> error + ('a \<times> database)"

text \<open>\<^verbatim>\<open>INSERT INTO relationships (id, member_id_1, relationship_type_id, member_id_2) VALUES ($1, $2, $3, $4)\<close>\<close>

definition insert_relationship :: "ident \<Rightarrow> ident \<Rightarrow> ident \<Rightarrow> ident \<Rightarrow> unit sql" where
  "insert_relationship i m1 t m2 db =
     Inr ((), db\<lparr>relationships := relationships db @
        [\<lparr>r_id = i, member_id_1 = m1, relationship_type_id = t, member_id_2 = m2\<rparr>]\<rparr>)"

text \<open>\<^verbatim>\<open>SELECT inverse_type_id FROM relationship_types WHERE id = $1\<close>\<close>

definition select_inverse_type_id :: "ident \<Rightarrow> ident option list sql" where
  "select_inverse_type_id t db =
     Inr (map inverse_type_id (filter (\<lambda>rt. rt_id rt = t) (relationship_types db)), db)"

text \<open>The \<^verbatim>\<open>WHERE member_id_1 = $1 AND relationship_type_id = $2 AND member_id_2 = $3\<close> clause.\<close>

definition matches :: "ident \<Rightarrow> ident \<Rightarrow> ident \<Rightarrow> relationship \<Rightarrow> bool" where
  "matches m1 t m2 r =
     (member_id_1 r = m1 \<and> relationship_type_id r = t \<and> member_id_2 r = m2)"

text \<open>\<^verbatim>\<open>SELECT id FROM relationships WHERE member_id_1 = $1 AND relationship_type_id = $2 AND member_id_2 = $3\<close>\<close>

definition select_relationship_ids :: "ident \<Rightarrow> ident \<Rightarrow> ident \<Rightarrow> ident list sql" where
  "select_relationship_ids m1 t m2 db =
     Inr (map r_id (filter (matches m1 t m2) (relationships db)), db)"

text \<open>\<^verbatim>\<open>SELECT member_id_1, member_id_2, relationship_type_id FROM relationships WHERE id = $1\<close>\<close>

definition select_relationship :: "ident \<Rightarrow> relationship list sql" where
  "select_relationship i db = Inr (filter (\<lambda>r. r_id r = i) (relationships db), db)"

text \<open>\<^verbatim>\<open>DELETE FROM relationships WHERE member_id_1 = $1 AND relationship_type_id = $2 AND member_id_2 = $3\<close>\<close>

definition delete_matching :: "ident \<Rightarrow> ident \<Rightarrow> ident \<Rightarrow> unit sql" where
  "delete_matching m1 t m2 db =
     Inr ((), db\<lparr>relationships := filter (\<lambda>r. \<not> matches m1 t m2 r) (relationships db)\<rparr>)"

text \<open>\<^verbatim>\<open>DELETE FROM relationships WHERE id = $1\<close>\<close>

definition delete_relationship :: "ident \<Rightarrow> unit sql" where
  "delete_relationship i db =
     Inr ((), db\<lparr>relationships := filter (\<lambda>r. r_id r \<noteq> i) (relationships db)\<rparr>)"

text \<open>\<^verbatim>\<open>UPDATE relationships SET member_id_1 = $1, relationship_type_id = $2, member_id_2 = $3 WHERE id = $4 RETURNING *\<close>\<close>

definition set_relationship :: "ident \<Rightarrow> ident \<Rightarrow> ident \<Rightarrow> ident \<Rightarrow> relationship \<Rightarrow> relationship" where
  "set_relationship i m1 t m2 r =
     (if r_id r = i
      then r\<lparr>member_id_1 := m1, relationship_type_id := t, member_id_2 := m2\<rparr>
      else r)"

definition update_relationship :: "ident \<Rightarrow> ident \<Rightarrow> ident \<Rightarrow> ident \<Rightarrow> relationship list sql" where
  "update_relationship m1 t m2 i db =
     (let rows = map (set_relationship i m1 t m2) (relationships db)
      in Inr (filter (\<lambda>r. r_id r = i) rows, db\<lparr>relationships := rows\<rparr>))"

text \<open>
  Modelled from the spec: the schema of the tables is not part of the sources. The spec
  gives the foreign keys of \<open>relationships\<close> on \<open>members\<close>: a member is referenced when a
  relationship row names it as subject or object.
\<close>

definition referenced :: "database \<Rightarrow> ident \<Rightarrow> bool" where
  "referenced db i =
     list_ex (\<lambda>r. member_id_1 r = i \<or> member_id_2 r = i) (relationships db)"

text \<open>
  Modelled from the spec: the foreign keys reject the delete of a member row that is
  still referenced; PostgreSQL reports that violation with the code 23503, the one the
  handler looks for. The statement itself is
  \<^verbatim>\<open>DELETE FROM members WHERE id = $1 RETURNING *\<close>.
\<close>

definition delete_member :: "ident \<Rightarrow> member list sql" where
  "delete_member i db =
     (let rows = filter (\<lambda>m. m_id m = i) (members db)
      in if rows \<noteq> [] \<and> referenced db i then Inl (DbError ''23503'')
         else Inr (rows, db\<lparr>members := filter (\<lambda>m. m_id m \<noteq> i) (members db)\<rparr>))"

section \<open>Requests: connection, transaction, response\<close>

datatype body =
    Json_message string
  | Json_error string
  | Json_relationship relationship
  | Json_member_deleted member

datatype event = Acquire | Begin | Commit | Rollback | Release | Respond nat body

text \<open>
  What a handler runs in. \<open>committed\<close> is the durable state of the store and \<open>current\<close>
  what the open transaction of the checked-out connection sees. A call to the store may
  fail for reasons the sources do not decide (the connection, a constraint of the
  schema): \<open>faults\<close> says which call fails and with what error, \<open>calls\<close> counts the calls
  made. \<open>uuid_gen\<close> is the stream \<^verbatim>\<open>uuidv4()\<close> draws from. \<open>client\<close> is whether the
  handler's variable \<^verbatim>\<open>client\<close> is defined, and \<open>trace\<close> the events of the request.
  The durable state changes only when a COMMIT succeeds (or a statement runs outside a
  transaction); a failed statement changes nothing. Requests are taken one at a time.
\<close>

record world =
  committed :: database
  current :: database
  faults :: "nat \<Rightarrow> error option"
  calls :: nat
  uuid_gen :: "nat \<Rightarrow> ident"
  uuid_calls :: nat
  client :: bool
  trace :: "event list"

type_synonym 'a io = "world \<Rightarrow> (error + 'a) \<times> world"

definition io_return :: "'a \<Rightarrow> 'a io" where
  "io_return x w = (Inr x, w)"

definition io_bind :: "'a io \<Rightarrow> ('a \<Rightarrow> 'b io) \<Rightarrow> 'b io" where
  "io_bind m f w = (case m w of (Inl e, w') \<Rightarrow> (Inl e, w') | (Inr x, w') \<Rightarrow> f x w')"

definition try_catch :: "'a io \<Rightarrow> (error \<Rightarrow> 'a io) \<Rightarrow> 'a io" where
  "try_catch m h w = (case m w of (Inl e, w') \<Rightarrow> h e w' | (Inr x, w') \<Rightarrow> (Inr x, w'))"

definition try_finally :: "'a io \<Rightarrow> unit io \<Rightarrow> 'a io" where
  "try_finally m fin w =
     (case m w of (r, w') \<Rightarrow>
        (case fin w' of (Inl e, w'') \<Rightarrow> (Inl e, w'') | (Inr u, w'') \<Rightarrow> (r, w'')))"

text \<open>One call to the store: it fails as the schedule says, or runs.\<close>

definition db_call :: "(world \<Rightarrow> (error + 'a) \<times> world) \<Rightarrow> 'a io" where
  "db_call f w =
     (case faults w (calls w) of
        Some e \<Rightarrow> (Inl e, w\<lparr>calls := Suc (calls w)\<rparr>)
      | None \<Rightarrow> f (w\<lparr>calls := Suc (calls w)\<rparr>))"

text \<open>\<^verbatim>\<open>client = await pool.connect()\<close>: the variable is assigned only when the call returns.\<close>

definition pool_connect :: "unit io" where
  "pool_connect = db_call (\<lambda>w. (Inr (), w\<lparr>client := True, trace := trace w @ [Acquire]\<rparr>))"

text \<open>\<^verbatim>\<open>pool.query(...)\<close>: a statement on a connection of its own, committed at once.\<close>

definition pool_query :: "'a sql \<Rightarrow> 'a io" where
  "pool_query stmt =
     db_call (\<lambda>w. case stmt (committed w) of
                     Inl e \<Rightarrow> (Inl e, w)
                   | Inr (x, db) \<Rightarrow> (Inr x, w\<lparr>committed := db\<rparr>))"

text \<open>
  \<^verbatim>\<open>client.query(...)\<close>: reading \<^verbatim>\<open>query\<close> of an undefined \<^verbatim>\<open>client\<close> throws a
  TypeError before anything reaches the store.
\<close>

definition on_client :: "'a io \<Rightarrow> 'a io" where
  "on_client m w = (if client w then m w else (Inl TypeError, w))"

definition client_query :: "'a sql \<Rightarrow> 'a io" where
  "client_query stmt =
     on_client (db_call (\<lambda>w. case stmt (current w) of
                                Inl e \<Rightarrow> (Inl e, w)
                              | Inr (x, db) \<Rightarrow> (Inr x, w\<lparr>current := db\<rparr>)))"

definition client_begin :: "unit io" where
  "client_begin =
     on_client (db_call (\<lambda>w. (Inr (), w\<lparr>current := committed w, trace := trace w @ [Begin]\<rparr>)))"

definition client_commit :: "unit io" where
  "client_commit =
     on_client (db_call (\<lambda>w. (Inr (), w\<lparr>committed := current w, trace := trace w @ [Commit]\<rparr>)))"

definition client_rollback :: "unit io" where
  "client_rollback =
     on_client (db_call (\<lambda>w. (Inr (), w\<lparr>current := committed w, trace := trace w @ [Rollback]\<rparr>)))"

text \<open>\<^verbatim>\<open>if (client) { ... }\<close>\<close>

definition if_client :: "unit io \<Rightarrow> unit io" where
  "if_client m w = (if client w then m w else (Inr (), w))"

definition client_release :: "unit io" where
  "client_release w = (Inr (), w\<lparr>trace := trace w @ [Release]\<rparr>)"

definition uuidv4 :: "ident io" where
  "uuidv4 w = (Inr (uuid_gen w (uuid_calls w)), w\<lparr>uuid_calls := Suc (uuid_calls w)\<rparr>)"

definition respond :: "nat \<Rightarrow> body \<Rightarrow> unit io" where
  "respond status b w = (Inr (), w\<lparr>trace := trace w @ [Respond status b]\<rparr>)"

text \<open>A request starts with its own \<^verbatim>\<open>let client;\<close> and no event yet.\<close>

definition new_request :: "unit io" where
  "new_request w = (Inr (), w\<lparr>client := False, trace := []\<rparr>)"

text \<open>JavaScript's truthiness of a nullable string column: null and the empty string are falsy.\<close>

definition js_truthy :: "ident option \<Rightarrow> bool" where
  "js_truthy v = (case v of None \<Rightarrow> False | Some s \<Rightarrow> s \<noteq> [])"

definition internal_server_error :: body where
  "internal_server_error = Json_error ''Internal server error''"

definition relationship_not_found :: body where
  "relationship_not_found = Json_error ''Relationship not found''"

section \<open>The relationship writer of server.js\<close>

subsection \<open>\<^verbatim>\<open>app.post("/api/relationships")\<close>\<close>

definition post_relationships_try :: "ident \<Rightarrow> ident \<Rightarrow> ident \<Rightarrow> unit io" where
  "post_relationships_try member_id_1' relationship_type_id' member_id_2' =
     io_bind pool_connect (\<lambda>_.
     io_bind client_begin (\<lambda>_.
     io_bind uuidv4 (\<lambda>primaryRelationshipId.
     io_bind (client_query (insert_relationship
                primaryRelationshipId member_id_1' relationship_type_id' member_id_2')) (\<lambda>_.
     io_bind (client_query (select_inverse_type_id relationship_type_id')) (\<lambda>typeResult.
     io_bind
       (if length typeResult > 0 \<and> js_truthy (hd typeResult) then
          (let inverse_type_id' = the (hd typeResult) in
           if inverse_type_id' \<noteq> relationship_type_id' \<or> member_id_1' \<noteq> member_id_2' then
             io_bind (client_query (select_relationship_ids
                        member_id_2' inverse_type_id' member_id_1')) (\<lambda>existingInverse.
               if length existingInverse = 0 then
                 io_bind uuidv4 (\<lambda>inverseRelationshipId.
                   client_query (insert_relationship
                     inverseRelationshipId member_id_2' inverse_type_id' member_id_1'))
               else io_return ())
           else io_return ())
        else io_return ()) (\<lambda>_.
     io_bind client_commit (\<lambda>_.
     respond 201 (Json_message ''Relationship(s) added successfully!''))))))))"

text \<open>The \<^verbatim>\<open>catch\<close> of this handler rolls back without looking at \<^verbatim>\<open>client\<close>.\<close>

definition post_relationships_catch :: "error \<Rightarrow> unit io" where
  "post_relationships_catch err =
     io_bind client_rollback (\<lambda>_. respond 500 internal_server_error)"

definition post_relationships :: "ident \<Rightarrow> ident \<Rightarrow> ident \<Rightarrow> unit io" where
  "post_relationships member_id_1' relationship_type_id' member_id_2' =
     io_bind new_request (\<lambda>_.
       try_finally
         (try_catch
            (post_relationships_try member_id_1' relationship_type_id' member_id_2')
            post_relationships_catch)
         (if_client client_release))"

subsection \<open>\<^verbatim>\<open>app.put("/api/relationships/:id")\<close>\<close>

definition put_relationships_try :: "ident \<Rightarrow> ident \<Rightarrow> ident \<Rightarrow> ident \<Rightarrow> unit io" where
  "put_relationships_try id' member_id_1' relationship_type_id' member_id_2' =
     io_bind pool_connect (\<lambda>_.
     io_bind client_begin (\<lambda>_.
     io_bind (client_query (select_relationship id')) (\<lambda>oldRelationshipQuery.
     case oldRelationshipQuery of
       [] \<Rightarrow> io_bind client_rollback (\<lambda>_. respond 404 relationship_not_found)
     | oldRel # _ \<Rightarrow>
     io_bind (client_query (select_inverse_type_id (relationship_type_id oldRel)))
       (\<lambda>oldInverseTypeResult.
     let oldInverseTypeId =
           (if length oldInverseTypeResult > 0 then hd oldInverseTypeResult else None) in
     io_bind
       (if js_truthy oldInverseTypeId then
          (let isOldSelfInverse = (the oldInverseTypeId = relationship_type_id oldRel) in
           if \<not> (isOldSelfInverse \<and> member_id_1 oldRel = member_id_2 oldRel) then
             client_query (delete_matching
               (member_id_2 oldRel) (the oldInverseTypeId) (member_id_1 oldRel))
           else io_return ())
        else io_return ()) (\<lambda>_.
     io_bind (client_query (update_relationship
                member_id_1' relationship_type_id' member_id_2' id')) (\<lambda>result.
     if length result = 0 then
       io_bind client_rollback (\<lambda>_. respond 404 relationship_not_found)
     else
     io_bind (client_query (select_inverse_type_id relationship_type_id')) (\<lambda>newTypeResult.
     let newInverseTypeId =
           (if length newTypeResult > 0 then hd newTypeResult else None) in
     io_bind
       (if js_truthy newInverseTypeId then
          (if the newInverseTypeId \<noteq> relationship_type_id' \<or> member_id_1' \<noteq> member_id_2' then
             io_bind (client_query (select_relationship_ids
                        member_id_2' (the newInverseTypeId) member_id_1')) (\<lambda>existingInverse.
               if length existingInverse = 0 then
                 io_bind uuidv4 (\<lambda>inverseRelationshipId.
                   client_query (insert_relationship
                     inverseRelationshipId member_id_2' (the newInverseTypeId) member_id_1'))
               else io_return ())
           else io_return ())
        else io_return ()) (\<lambda>_.
     io_bind client_commit (\<lambda>_.
     respond 200 (Json_relationship (hd result)))))))))))"

definition put_relationships_catch :: "error \<Rightarrow> unit io" where
  "put_relationships_catch err =
     io_bind (if_client client_rollback) (\<lambda>_. respond 500 internal_server_error)"

definition put_relationships :: "ident \<Rightarrow> ident \<Rightarrow> ident \<Rightarrow> ident \<Rightarrow> unit io" where
  "put_relationships id' member_id_1' relationship_type_id' member_id_2' =
     io_bind new_request (\<lambda>_.
       try_finally
         (try_catch
            (put_relationships_try id' member_id_1' relationship_type_id' member_id_2')
            put_relationships_catch)
         (if_client client_release))"

subsection \<open>\<^verbatim>\<open>app.delete("/api/relationships/:id")\<close>\<close>

definition delete_relationships_try :: "ident \<Rightarrow> unit io" where
  "delete_relationships_try id' =
     io_bind pool_connect (\<lambda>_.
     io_bind client_begin (\<lambda>_.
     io_bind (client_query (select_relationship id')) (\<lambda>relationshipResult.
     case relationshipResult of
       [] \<Rightarrow> io_bind client_rollback (\<lambda>_. respond 404 relationship_not_found)
     | relationshipToDelete # _ \<Rightarrow>
     io_bind (client_query (delete_relationship id')) (\<lambda>_.
     io_bind (client_query (select_inverse_type_id
                (relationship_type_id relationshipToDelete))) (\<lambda>typeResult.
     let inverse_type_id' = (if length typeResult > 0 then hd typeResult else None) in
     io_bind
       (if js_truthy inverse_type_id' then
          (let isSelfInverse =
                 (the inverse_type_id' = relationship_type_id relationshipToDelete) in
           if \<not> (isSelfInverse \<and>
                 member_id_1 relationshipToDelete = member_id_2 relationshipToDelete) then
             client_query (delete_matching
               (member_id_2 relationshipToDelete) (the inverse_type_id')
               (member_id_1 relationshipToDelete))
           else io_return ())
        else io_return ()) (\<lambda>_.
     io_bind client_commit (\<lambda>_.
     respond 200 (Json_message ''Relationship(s) deleted successfully!''))))))))"

definition delete_relationships_catch :: "error \<Rightarrow> unit io" where
  "delete_relationships_catch err =
     io_bind (if_client client_rollback) (\<lambda>_. respond 500 internal_server_error)"

definition delete_relationships :: "ident \<Rightarrow> unit io" where
  "delete_relationships id' =
     io_bind new_request (\<lambda>_.
       try_finally
         (try_catch (delete_relationships_try id') delete_relationships_catch)
         (if_client client_release))"

subsection \<open>\<^verbatim>\<open>app.delete("/api/members/:id")\<close>\<close>

definition cannot_delete_member :: body where
  "cannot_delete_member = Json_error
     ''Cannot delete member: This member is linked to one or more relationships. Please delete relationships first.''"

definition delete_members_try :: "ident \<Rightarrow> unit io" where
  "delete_members_try id' =
     io_bind (pool_query (delete_member id')) (\<lambda>result.
       if length result > 0 then respond 200 (Json_member_deleted (hd result))
       else respond 404 (Json_error ''Member not found''))"

definition delete_members_catch :: "error \<Rightarrow> unit io" where
  "delete_members_catch err =
     (if err = DbError ''23503'' then respond 400 cannot_delete_member
      else respond 500 internal_server_error)"

definition delete_members :: "ident \<Rightarrow> unit io" where
  "delete_members id' =
     io_bind new_request (\<lambda>_. try_catch (delete_members_try id') delete_members_catch)"

section \<open>The earlier server: \<^verbatim>\<open>app.post("/api/relationships")\<close> without inverses\<close>

text \<open>
  This variant inserts without an id: the column's default, which the sources do not
  show, draws from the same stream as \<^verbatim>\<open>uuidv4()\<close>.
\<close>

definition insert_relationship_returning :: "ident \<Rightarrow> ident \<Rightarrow> ident \<Rightarrow> relationship list io" where
  "insert_relationship_returning m1 m2 t =
     io_bind uuidv4 (\<lambda>i.
     io_bind (pool_query (insert_relationship i m1 t m2)) (\<lambda>_.
     io_return [\<lparr>r_id = i, member_id_1 = m1, relationship_type_id = t, member_id_2 = m2\<rparr>]))"

definition post_relationships_v0_try :: "ident \<Rightarrow> ident \<Rightarrow> ident \<Rightarrow> unit io" where
  "post_relationships_v0_try member_id_1' member_id_2' relationship_type_id' =
     (if member_id_1' = member_id_2' then
        respond 400 (Json_error ''Cannot create a relationship with the same member ID.'')
      else
        io_bind (insert_relationship_returning
                   member_id_1' member_id_2' relationship_type_id') (\<lambda>result.
        respond 201 (Json_relationship (hd result))))"

definition post_relationships_v0 :: "ident \<Rightarrow> ident \<Rightarrow> ident \<Rightarrow> unit io" where
  "post_relationships_v0 member_id_1' member_id_2' relationship_type_id' =
     io_bind new_request (\<lambda>_.
       try_catch
         (post_relationships_v0_try member_id_1' member_id_2' relationship_type_id')
         (\<lambda>err. respond 500 (Json_error ''Internal Server Error'')))"

section \<open>Reading a finished request\<close>

fun statuses :: "event list \<Rightarrow> nat list" where
  "statuses [] = []"
| "statuses (Respond s b # es) = s # statuses es"
| "statuses (e # es) = statuses es"

text \<open>The world a handler leaves, the statuses it answered with and the rows it left stored.\<close>

definition after :: "unit io \<Rightarrow> world \<Rightarrow> world" where
  "after h w = snd (h w)"

definition answers :: "unit io \<Rightarrow> world \<Rightarrow> nat list" where
  "answers h w = statuses (trace (after h w))"

definition stored :: "world \<Rightarrow> relationship list" where
  "stored w = relationships (committed w)"

definition no_faults :: "world \<Rightarrow> bool" where
  "no_faults w = (\<forall>n. faults w n = None)"

section \<open>What the specification says the writer stores\<close>

text \<open>
  The inverse type a relationship type declares, as the handlers read it: the first row
  of the lookup, if its \<open>inverse_type_id\<close> is truthy.
\<close>

definition declared_inverse :: "database \<Rightarrow> ident \<Rightarrow> ident option" where
  "declared_inverse db t =
     (case map inverse_type_id (filter (\<lambda>rt. rt_id rt = t) (relationship_types db)) of
        [] \<Rightarrow> None
      | v # _ \<Rightarrow> if js_truthy v then v else None)"

definition row :: "ident \<Rightarrow> ident \<Rightarrow> ident \<Rightarrow> ident \<Rightarrow> relationship" where
  "row i m1 t m2 = \<lparr>r_id = i, member_id_1 = m1, relationship_type_id = t, member_id_2 = m2\<rparr>"

text \<open>
  Steps 4a to 4c of the create algorithm of the specification: the rows to add for the
  inverse of (subject, typeId, object), given the inverse type and the rows stored.
\<close>

definition spec_inverse_rows ::
  "ident option \<Rightarrow> ident \<Rightarrow> ident \<Rightarrow> ident \<Rightarrow> ident \<Rightarrow> relationship list \<Rightarrow> relationship list" where
  "spec_inverse_rows invT subject typeId object fresh rows =
     (case invT of
        None \<Rightarrow> []
      | Some inverseType \<Rightarrow>
          if inverseType = typeId \<and> subject = object then []
          else if list_ex (matches object inverseType subject) rows then []
          else [row fresh object inverseType subject])"

text \<open>The create algorithm: the primary row, then its inverse.\<close>

definition spec_create ::
  "ident option \<Rightarrow> ident \<Rightarrow> ident \<Rightarrow> ident \<Rightarrow> ident \<Rightarrow> ident \<Rightarrow> relationship list \<Rightarrow> relationship list" where
  "spec_create invT subject typeId object fresh1 fresh2 rows =
     (let rows1 = rows @ [row fresh1 subject typeId object]
      in rows1 @ spec_inverse_rows invT subject typeId object fresh2 rows1)"

text \<open>
  Step 3 of the update algorithm (and step 4 of delete): the old inverse rows go, unless
  the old relationship is a self-loop of a self-inverse type.
\<close>

definition spec_drop_inverse :: "ident option \<Rightarrow> relationship \<Rightarrow> relationship list \<Rightarrow> relationship list" where
  "spec_drop_inverse oldInv old rows =
     (case oldInv of
        None \<Rightarrow> rows
      | Some oldInverseType \<Rightarrow>
          if oldInverseType = relationship_type_id old \<and> member_id_1 old = member_id_2 old
          then rows
          else filter (\<lambda>r. \<not> matches (member_id_2 old) oldInverseType (member_id_1 old) r) rows)"

text \<open>The update algorithm: drop the old inverse, set the primary row, add the new inverse.\<close>

definition spec_update ::
  "ident option \<Rightarrow> ident option \<Rightarrow> relationship \<Rightarrow> ident \<Rightarrow> ident \<Rightarrow> ident \<Rightarrow> ident \<Rightarrow>
     relationship list \<Rightarrow> relationship list" where
  "spec_update oldInv newInv old subject typeId object fresh rows =
     (let rows1 = spec_drop_inverse oldInv old rows;
          rows2 = map (set_relationship (r_id old) subject typeId object) rows1
      in rows2 @ spec_inverse_rows newInv subject typeId object fresh rows2)"

text \<open>The delete algorithm: the primary row goes, then its inverse.\<close>

definition spec_delete :: "ident option \<Rightarrow> relationship \<Rightarrow> relationship list \<Rightarrow> relationship list" where
  "spec_delete invT old rows =
     spec_drop_inverse invT old (filter (\<lambda>r. r_id r \<noteq> r_id old) rows)"

section \<open>Assertions on a running request\<close>

definition hoare :: "(world \<Rightarrow> bool) \<Rightarrow> 'a io \<Rightarrow> ((error + 'a) \<Rightarrow> world \<Rightarrow> bool) \<Rightarrow> bool" where
  "hoare P m Q = (\<forall>w. P w \<longrightarrow> Q (fst (m w)) (snd (m w)))"

definition keeps :: "(world \<Rightarrow> bool) \<Rightarrow> 'a io \<Rightarrow> bool" where
  "keeps I m = hoare I m (\<lambda>r. I)"

definition tx_events :: "event set" where
  "tx_events = {Begin, Commit, Rollback}"

text \<open>Before the connection is there; inside the transaction; after the answer of the \<^verbatim>\<open>try\<close> block.\<close>

definition starting :: "world \<Rightarrow> bool" where
  "starting w = (\<not> client w \<and> trace w = [])"

definition in_tx :: "world \<Rightarrow> bool" where
  "in_tx w = (client w \<and> (\<exists>mid. trace w = Acquire # mid \<and> set mid \<subseteq> tx_events))"

definition answered :: "nat set \<Rightarrow> world \<Rightarrow> bool" where
  "answered S w = (client w \<and>
     (\<exists>mid s b. trace w = Acquire # mid @ [Respond s b] \<and> set mid \<subseteq> tx_events \<and> s \<in> S))"

definition quiet :: "'a io \<Rightarrow> bool" where
  "quiet m = keeps in_tx m"

definition ends :: "nat set \<Rightarrow> 'a io \<Rightarrow> bool" where
  "ends S m = hoare in_tx m (\<lambda>r w. case r of Inl e \<Rightarrow> in_tx w | Inr x \<Rightarrow> answered S w)"

text \<open>After the \<^verbatim>\<open>catch\<close> block: rolled back and answered 500, or answered 500 with no connection.\<close>

definition rolled_back :: "world \<Rightarrow> bool" where
  "rolled_back w = (client w \<and>
     (\<exists>mid. trace w = Acquire # mid @ [Rollback, Respond 500 internal_server_error] \<and>
        set mid \<subseteq> tx_events))"

definition refused :: "world \<Rightarrow> bool" where
  "refused w = (\<not> client w \<and> trace w = [Respond 500 internal_server_error])"

text \<open>The events of a request that had a connection: acquired first, released last.\<close>

definition closed :: "nat set \<Rightarrow> event list \<Rightarrow> bool" where
  "closed S tr = (\<exists>mid. set mid \<subseteq> tx_events \<and>
     (tr = Acquire # mid @ [Release] \<or>
      (\<exists>s b. s \<in> S \<and> tr = Acquire # mid @ [Respond s b, Release]) \<or>
      tr = Acquire # mid @ [Rollback, Respond 500 internal_server_error, Release]))"

definition unanswered :: "nat \<Rightarrow> world \<Rightarrow> bool" where
  "unanswered s w = (s \<notin> set (statuses (trace w)))"

definition has_row :: "ident \<Rightarrow> relationship \<Rightarrow> world \<Rightarrow> bool" where
  "has_row i r w = (unanswered 404 w \<and> r \<in> set (relationships (current w)) \<and> r_id r = i)"



text \<open>
  The call number \<open>k\<close> of a request (counted from its first call, \<^verbatim>\<open>pool.connect()\<close>)
  is the first one that fails.
\<close>

definition first_fault :: "world \<Rightarrow> nat \<Rightarrow> bool" where
  "first_fault w k =
     ((\<forall>j<k. faults w (calls w + j) = None) \<and> faults w (calls w + k) \<noteq> None)"

text \<open>Inside the transaction, before that call and after it.\<close>

definition before_fault :: "world \<Rightarrow> nat \<Rightarrow> world \<Rightarrow> bool" where
  "before_fault w0 k w =
     (in_tx w \<and> faults w = faults w0 \<and> calls w0 < calls w \<and> calls w \<le> calls w0 + k)"

definition at_fault :: "world \<Rightarrow> nat \<Rightarrow> world \<Rightarrow> bool" where
  "at_fault w0 k w = (in_tx w \<and> faults w = faults w0 \<and> calls w = calls w0 + Suc k)"

definition careful :: "world \<Rightarrow> nat \<Rightarrow> 'a io \<Rightarrow> bool" where
  "careful w0 k m =
     hoare (before_fault w0 k) m
       (\<lambda>r w. case r of Inl e \<Rightarrow> at_fault w0 k w | Inr x \<Rightarrow> before_fault w0 k w)"

definition finishing :: "world \<Rightarrow> nat \<Rightarrow> nat set \<Rightarrow> 'a io \<Rightarrow> bool" where
  "finishing w0 k S m =
     hoare (before_fault w0 k) m
       (\<lambda>r w. case r of Inl e \<Rightarrow> at_fault w0 k w | Inr x \<Rightarrow> answered S w)"

text \<open>
  How a request with a connection ends: its \<^verbatim>\<open>try\<close> block reached its answer, or the
  \<^verbatim>\<open>catch\<close> block rolled back and answered 500.
\<close>

definition try_completed :: "nat set \<Rightarrow> event list \<Rightarrow> bool" where
  "try_completed S tr =
     (\<exists>mid s b. set mid \<subseteq> tx_events \<and> s \<in> S \<and> tr = Acquire # mid @ [Respond s b, Release])"

definition rolled_back_then_500 :: "event list \<Rightarrow> bool" where
  "rolled_back_then_500 tr =
     (\<exists>mid. set mid \<subseteq> tx_events \<and>
        tr = Acquire # mid @ [Rollback, Respond 500 internal_server_error, Release])"

section \<open>Example data\<close>

definition example_types :: "relationship_type list" where
  "example_types =
     [\<lparr>rt_id = ''P'', rt_name = ''Parent'', inverse_type_id = Some ''C''\<rparr>,
      \<lparr>rt_id = ''C'', rt_name = ''Child'', inverse_type_id = Some ''P''\<rparr>,
      \<lparr>rt_id = ''S'', rt_name = ''Spouse'', inverse_type_id = Some ''S''\<rparr>,
      \<lparr>rt_id = ''F'', rt_name = ''Friend'', inverse_type_id = None\<rparr>]"

definition example_member :: "ident \<Rightarrow> member" where
  "example_member i = \<lparr>m_id = i, first_name = i, middle_name = None, last_name = ''Kamara'',
     dob = None, dod = None, is_alive = True\<rparr>"

definition example_db :: "relationship list \<Rightarrow> database" where
  "example_db rows = \<lparr>members = map example_member [''A'', ''B'', ''D''],
     relationship_types = example_types, relationships = rows\<rparr>"

text \<open>A world where no call fails and the generated ids are u, uu, uuu, ...\<close>

definition example_world :: "relationship list \<Rightarrow> world" where
  "example_world rows = \<lparr>committed = example_db rows, current = example_db rows,
     faults = (\<lambda>n. None), calls = 0,
     uuid_gen = (\<lambda>n. replicate (Suc n) (CHR ''u'')), uuid_calls = 0,
     client = False, trace = []\<rparr>"

text \<open>The same, but the call number \<open>n\<close> to the store fails; call 0 is \<^verbatim>\<open>pool.connect()\<close>.\<close>

definition failing_world :: "nat \<Rightarrow> relationship list \<Rightarrow> world" where
  "failing_world n rows =
     (example_world rows)\<lparr>faults := (\<lambda>k. if k = n then Some (DbError ''08006'') else None)\<rparr>"

section \<open>Rules for the assertions\<close>

lemmas prim_defs = db_call_def pool_connect_def pool_query_def client_query_def on_client_def
  client_begin_def client_commit_def client_rollback_def if_client_def client_release_def
  uuidv4_def respond_def new_request_def io_return_def

lemmas io_defs = io_bind_def try_catch_def try_finally_def prim_defs

lemmas sql_defs = insert_relationship_def select_inverse_type_id_def
  select_relationship_ids_def select_relationship_def delete_matching_def
  delete_relationship_def update_relationship_def

lemma hoareD: "hoare P m Q \<Longrightarrow> P w \<Longrightarrow> Q (fst (m w)) (snd (m w))"
  by (simp add: hoare_def)

lemma hoare_weaken:
  "hoare P m Q \<Longrightarrow> (\<And>w. P' w \<Longrightarrow> P w) \<Longrightarrow> (\<And>r w. Q r w \<Longrightarrow> Q' r w) \<Longrightarrow> hoare P' m Q'"
  by (simp add: hoare_def)

lemma hoare_bind:
  assumes "hoare P m (\<lambda>r w. case r of Inl e \<Rightarrow> Q (Inl e) w | Inr x \<Rightarrow> R x w)"
    and "\<And>x. hoare (R x) (f x) Q"
  shows "hoare P (io_bind m f) Q"
  unfolding hoare_def
proof (intro allI impI)
  fix w assume "P w"
  with assms(1) have 1: "case fst (m w) of Inl e \<Rightarrow> Q (Inl e) (snd (m w)) | Inr x \<Rightarrow> R x (snd (m w))"
    by (simp add: hoare_def)
  show "Q (fst (io_bind m f w)) (snd (io_bind m f w))"
  proof (cases "m w")
    case (Pair r w')
    then show ?thesis using 1 assms(2)
      by (cases r) (auto simp: io_bind_def hoare_def)
  qed
qed

lemma hoare_catch:
  assumes "hoare P m (\<lambda>r w. case r of Inl e \<Rightarrow> R e w | Inr x \<Rightarrow> Q (Inr x) w)"
    and "\<And>e. hoare (R e) (h e) Q"
  shows "hoare P (try_catch m h) Q"
  unfolding hoare_def
proof (intro allI impI)
  fix w assume "P w"
  with assms(1) have 1: "case fst (m w) of Inl e \<Rightarrow> R e (snd (m w)) | Inr x \<Rightarrow> Q (Inr x) (snd (m w))"
    by (simp add: hoare_def)
  show "Q (fst (try_catch m h w)) (snd (try_catch m h w))"
  proof (cases "m w")
    case (Pair r w')
    then show ?thesis using 1 assms(2)
      by (cases r) (auto simp: try_catch_def hoare_def)
  qed
qed

lemma hoare_finally:
  assumes "hoare P m R"
    and "\<And>r. hoare (R r) fin (\<lambda>r' w. case r' of Inl e \<Rightarrow> Q (Inl e) w | Inr u \<Rightarrow> Q r w)"
  shows "hoare P (try_finally m fin) Q"
  unfolding hoare_def
proof (intro allI impI)
  fix w assume "P w"
  with assms(1) have 1: "R (fst (m w)) (snd (m w))"
    by (simp add: hoare_def)
  show "Q (fst (try_finally m fin w)) (snd (try_finally m fin w))"
  proof (cases "m w")
    case (Pair r w')
    with 1 have "R r w'" by simp
    with assms(2) have "case fst (fin w') of Inl e \<Rightarrow> Q (Inl e) (snd (fin w')) | Inr u \<Rightarrow> Q r (snd (fin w'))"
      by (simp add: hoare_def)
    then show ?thesis using Pair
      by (cases "fin w'"; cases "fst (fin w')") (auto simp: try_finally_def)
  qed
qed

lemma keeps_bind: "keeps I m \<Longrightarrow> (\<And>x. keeps I (f x)) \<Longrightarrow> keeps I (io_bind m f)"
  unfolding keeps_def
  by (rule hoare_bind[where R = "\<lambda>x. I"]) (auto simp: hoare_def split: sum.splits)

lemma keeps_return: "keeps I (io_return x)"
  by (simp add: keeps_def hoare_def io_return_def)

lemma keeps_catch: "keeps I m \<Longrightarrow> (\<And>e. keeps I (h e)) \<Longrightarrow> keeps I (try_catch m h)"
  unfolding keeps_def
  by (rule hoare_catch[where R = "\<lambda>x. I"]) (auto simp: hoare_def split: sum.splits)

lemma keeps_finally: "keeps I m \<Longrightarrow> keeps I fin \<Longrightarrow> keeps I (try_finally m fin)"
  unfolding keeps_def
  by (rule hoare_finally[where R = "\<lambda>x. I"]) (auto simp: hoare_def split: sum.splits)

lemma keeps_if_client: "keeps I m \<Longrightarrow> keeps I (if_client m)"
  by (simp add: keeps_def hoare_def if_client_def)

lemmas keeps_intros = keeps_bind keeps_return keeps_if_client keeps_catch keeps_finally

subsection \<open>The events of a request\<close>

lemma statuses_append: "statuses (xs @ ys) = statuses xs @ statuses ys"
  by (induction xs rule: statuses.induct) simp_all

lemma statuses_tx: "set mid \<subseteq> tx_events \<Longrightarrow> statuses mid = []"
  by (induction mid rule: statuses.induct) (auto simp: tx_events_def)

lemma count_tx:
  "set mid \<subseteq> tx_events \<Longrightarrow> count_list mid Acquire = 0 \<and> count_list mid Release = 0"
  by (induction mid) (auto simp: tx_events_def)

lemma closed_statuses: "closed S tr \<Longrightarrow> set (statuses tr) \<subseteq> S \<union> {500}"
  by (auto simp: closed_def statuses_append statuses_tx)

lemma closed_bracket:
  assumes "closed S tr"
  shows "count_list tr Acquire = 1" "count_list tr Release = 1" "last tr = Release"
    "Respond 500 b \<in> set tr \<Longrightarrow> 500 \<notin> S \<Longrightarrow> \<exists>pre. tr = pre @ [Rollback, Respond 500 b, Release]"
  using assms by (auto simp: closed_def count_tx tx_events_def)

lemma quiet_client_query: "quiet (client_query stmt)"
  by (auto simp: quiet_def keeps_def hoare_def in_tx_def prim_defs split: option.splits sum.splits)

lemma quiet_uuidv4: "quiet uuidv4"
  by (auto simp: quiet_def keeps_def hoare_def in_tx_def prim_defs)

lemma quiet_tx:
  "quiet client_begin" "quiet client_commit" "quiet client_rollback"
  by (auto simp: quiet_def keeps_def hoare_def in_tx_def tx_events_def prim_defs split: option.splits)

lemma quiet_return: "quiet (io_return x)"
  by (simp add: quiet_def keeps_return)

lemma quiet_bind: "quiet m \<Longrightarrow> (\<And>x. quiet (f x)) \<Longrightarrow> quiet (io_bind m f)"
  by (simp add: quiet_def keeps_bind)

lemma ends_respond: "s \<in> S \<Longrightarrow> ends S (respond s b)"
  by (auto simp: ends_def hoare_def in_tx_def answered_def prim_defs)

lemma ends_bind: "quiet m \<Longrightarrow> (\<And>x. ends S (f x)) \<Longrightarrow> ends S (io_bind m f)"
  unfolding ends_def quiet_def keeps_def
  by (rule hoare_bind[where R = "\<lambda>x. in_tx"]) (auto simp: hoare_def split: sum.splits)

lemmas quiet_intros = quiet_bind quiet_client_query quiet_uuidv4 quiet_tx quiet_return


lemma try_shape:
  assumes "\<And>x. ends S (f x)"
  shows "hoare starting (io_bind pool_connect f)
           (\<lambda>r w. case r of Inl e \<Rightarrow> starting w \<or> in_tx w | Inr x \<Rightarrow> answered S w)"
proof (rule hoare_bind[where R = "\<lambda>x. in_tx"])
  fix x
  have "hoare in_tx (f x) (\<lambda>r w. case r of Inl e \<Rightarrow> in_tx w | Inr x \<Rightarrow> answered S w)"
    using assms[of x] by (simp add: ends_def)
  then show "hoare in_tx (f x)
          (\<lambda>r w. case r of Inl e \<Rightarrow> starting w \<or> in_tx w | Inr x \<Rightarrow> answered S w)"
    by (rule hoare_weaken) (simp_all split: sum.splits)
qed (auto simp: hoare_def starting_def in_tx_def prim_defs split: option.splits)

lemmas ends_intros = ends_bind ends_respond quiet_intros


lemma post_try_shape:
  "hoare starting (post_relationships_try m1 t m2)
     (\<lambda>r w. case r of Inl e \<Rightarrow> starting w \<or> in_tx w | Inr x \<Rightarrow> answered {201} w)"
  unfolding post_relationships_try_def
  by (rule try_shape)
     (auto intro!: ends_intros simp: Let_def simp del: length_0_conv length_greater_0_conv
           split: list.splits)




lemma unguarded_catch_shape:
  "hoare (\<lambda>w. starting w \<or> in_tx w)
     (io_bind client_rollback (\<lambda>_. respond 500 internal_server_error))
     (\<lambda>r w. case r of Inl e \<Rightarrow> starting w \<or> in_tx w | Inr x \<Rightarrow> rolled_back w)"
  by (auto simp: hoare_def starting_def in_tx_def refused_def rolled_back_def tx_events_def
        io_bind_def prim_defs split: option.splits)

lemma release_shape:
  "hoare (\<lambda>w. case r of Inl e \<Rightarrow> (starting w \<and> g1) \<or> in_tx w
                | Inr x \<Rightarrow> answered S w \<or> (refused w \<and> g2) \<or> rolled_back w)
     (if_client client_release)
     (\<lambda>r' w. case r' of
         Inl e \<Rightarrow> False
       | Inr u \<Rightarrow> (case r of Inl e \<Rightarrow> trace w = [] \<and> g1
                   | Inr x \<Rightarrow> trace w = [Respond 500 internal_server_error] \<and> g2)
                 \<or> closed S (trace w))"
  by (cases r)
     (auto simp: hoare_def starting_def in_tx_def answered_def refused_def rolled_back_def
        closed_def prim_defs)

lemma handler_shape:
  assumes body: "hoare starting body
      (\<lambda>r w. case r of Inl e \<Rightarrow> starting w \<or> in_tx w | Inr x \<Rightarrow> answered S w)"
    and handler: "\<And>e. hoare (\<lambda>w. starting w \<or> in_tx w) (handler e)
      (\<lambda>r w. case r of Inl e \<Rightarrow> (starting w \<and> g1) \<or> in_tx w
                | Inr x \<Rightarrow> (refused w \<and> g2) \<or> rolled_back w)"
  shows "hoare (\<lambda>w. True)
     (io_bind new_request (\<lambda>_. try_finally (try_catch body handler) (if_client client_release)))
     (\<lambda>r w. (case r of Inl e \<Rightarrow> trace w = [] \<and> g1
               | Inr x \<Rightarrow> trace w = [Respond 500 internal_server_error] \<and> g2)
             \<or> closed S (trace w))"
proof (rule hoare_bind[where R = "\<lambda>x. starting"])
  fix u :: unit
  have tc: "hoare starting (try_catch body handler)
      (\<lambda>r w. case r of Inl e \<Rightarrow> (starting w \<and> g1) \<or> in_tx w
                | Inr x \<Rightarrow> answered S w \<or> (refused w \<and> g2) \<or> rolled_back w)"
  proof (rule hoare_catch[where R = "\<lambda>e w. starting w \<or> in_tx w"])
    fix e
    show "hoare (\<lambda>w. starting w \<or> in_tx w) (handler e)
       (\<lambda>r w. case r of Inl e \<Rightarrow> (starting w \<and> g1) \<or> in_tx w
                 | Inr x \<Rightarrow> answered S w \<or> (refused w \<and> g2) \<or> rolled_back w)"
      using handler[of e] by (rule hoare_weaken) (simp_all split: sum.splits)
  qed (rule hoare_weaken[OF body], simp_all split: sum.splits)
  show "hoare starting
     (try_finally (try_catch body handler) (if_client client_release))
     (\<lambda>r w. (case r of Inl e \<Rightarrow> trace w = [] \<and> g1
               | Inr x \<Rightarrow> trace w = [Respond 500 internal_server_error] \<and> g2)
             \<or> closed S (trace w))"
    by (rule hoare_finally[OF tc])
       (rule hoare_weaken[OF release_shape], simp, simp split: sum.splits)
qed (simp add: hoare_def new_request_def starting_def)

lemma post_shape:
  "trace (after (post_relationships m1 t m2) w) = [] \<or>
   closed {201} (trace (after (post_relationships m1 t m2) w))"
proof -
  have "hoare (\<lambda>w. True) (post_relationships m1 t m2)
     (\<lambda>r w. (case r of Inl e \<Rightarrow> trace w = [] \<and> True
               | Inr x \<Rightarrow> trace w = [Respond 500 internal_server_error] \<and> False)
             \<or> closed {201} (trace w))"
    unfolding post_relationships_def
    by (rule handler_shape[OF post_try_shape])
       (auto simp: post_relationships_catch_def
             intro: hoare_weaken[OF unguarded_catch_shape] split: sum.splits)
  from hoareD[OF this, of w] show ?thesis
    by (auto simp: after_def split: sum.splits)
qed




subsection \<open>The row a request updates\<close>

lemma r_id_set_relationship: "r_id (set_relationship i a b c r) = r_id r"
  by (simp add: set_relationship_def)

lemma not_own_inverse:
  "\<not> (v = relationship_type_id r \<and> member_id_1 r = member_id_2 r) \<Longrightarrow>
   \<not> matches (member_id_2 r) v (member_id_1 r) r"
  by (auto simp: matches_def)

lemma select_found:
  assumes "r \<in> set rs" "r_id r = i"
  shows "\<exists>r' rest. filter (\<lambda>x. r_id x = i) rs = r' # rest \<and> r' \<in> set rs \<and> r_id r' = i"
proof (cases "filter (\<lambda>x. r_id x = i) rs")
  case Nil
  with assms show ?thesis by (auto simp: filter_empty_conv)
next
  case (Cons r' rest)
  from filter_eq_ConsD[OF this] have "r' \<in> set rs" "r_id r' = i" by auto
  with Cons show ?thesis by blast
qed

lemma keeps_unanswered:
  "keeps (unanswered s) (client_query stmt)"
  "keeps (unanswered s) uuidv4"
  "keeps (unanswered s) client_begin"
  "keeps (unanswered s) client_commit"
  "keeps (unanswered s) client_rollback"
  "keeps (unanswered s) client_release"
  "keeps (unanswered s) pool_connect"
  "s' \<noteq> s \<Longrightarrow> keeps (unanswered s) (respond s' b)"
  by (auto simp: keeps_def hoare_def unanswered_def statuses_append prim_defs
        split: option.splits sum.splits)

lemma drop_block_keeps_row:
  "hoare (has_row i oldRel)
     (if js_truthy v
      then if \<not> (the v = relationship_type_id oldRel \<and> member_id_1 oldRel = member_id_2 oldRel)
           then client_query (delete_matching (member_id_2 oldRel) (the v) (member_id_1 oldRel))
           else io_return ()
      else io_return ())
     (\<lambda>r w. case r of Inl e \<Rightarrow> unanswered 404 w | Inr x \<Rightarrow> has_row i oldRel w)"
  using not_own_inverse[of "the v" oldRel]
  by (auto simp: hoare_def has_row_def unanswered_def prim_defs sql_defs split: option.splits)

lemma put_try_never_404:
  "hoare (\<lambda>w. unanswered 404 w \<and> (\<exists>r. r \<in> set (relationships (committed w)) \<and> r_id r = i))
     (put_relationships_try i m1 t m2) (\<lambda>r. unanswered 404)"
  unfolding put_relationships_try_def Let_def
proof (rule hoare_bind[where R = "\<lambda>x w. unanswered 404 w \<and>
          (\<exists>r. r \<in> set (relationships (committed w)) \<and> r_id r = i)"],
       goal_cases)
  case 1
  show ?case
    by (auto simp: hoare_def unanswered_def statuses_append prim_defs split: option.splits)
next
  case (2 u)
  show ?case
  proof (rule hoare_bind[where R = "\<lambda>x w. unanswered 404 w \<and>
          (\<exists>r. r \<in> set (relationships (current w)) \<and> r_id r = i)"], goal_cases)
    case 1
    show ?case
      by (auto simp: hoare_def unanswered_def statuses_append prim_defs split: option.splits)
  next
    case (2 u')
    show ?case
    proof (rule hoare_bind[where R = "\<lambda>rows w. \<exists>r rest. rows = r # rest \<and> has_row i r w"], goal_cases)
      case 1
      show ?case
        using select_found[of _ _ i]
        by (fastforce simp: hoare_def has_row_def unanswered_def prim_defs sql_defs
              split: option.splits)
    next
      case (2 rows)
      show ?case
      proof (cases rows)
        case Nil
        then show ?thesis by (simp add: hoare_def)
      next
        case (Cons oldRel rest)
        have "hoare (has_row i oldRel)
           (io_bind (client_query (select_inverse_type_id (relationship_type_id oldRel)))
             (\<lambda>oldInverseTypeResult.
               io_bind
                (if js_truthy (if 0 < length oldInverseTypeResult then hd oldInverseTypeResult else None)
                 then if \<not> (the (if 0 < length oldInverseTypeResult then hd oldInverseTypeResult else None) = relationship_type_id oldRel \<and>
                            member_id_1 oldRel = member_id_2 oldRel)
                      then client_query (delete_matching (member_id_2 oldRel)
                            (the (if 0 < length oldInverseTypeResult then hd oldInverseTypeResult else None))
                            (member_id_1 oldRel))
                      else io_return ()
                 else io_return ())
                (\<lambda>_. io_bind (client_query (update_relationship m1 t m2 i))
                  (\<lambda>result.
                    if length result = 0
                    then io_bind client_rollback (\<lambda>_. respond 404 relationship_not_found)
                    else io_bind (client_query (select_inverse_type_id t))
                      (\<lambda>newTypeResult.
                        io_bind
                         (if js_truthy (if 0 < length newTypeResult then hd newTypeResult else None)
                          then if the (if 0 < length newTypeResult then hd newTypeResult else None) \<noteq> t \<or> m1 \<noteq> m2
                               then io_bind (client_query (select_relationship_ids m2
                                       (the (if 0 < length newTypeResult then hd newTypeResult else None)) m1))
                                     (\<lambda>existingInverse.
                                       if length existingInverse = 0
                                       then io_bind uuidv4 (\<lambda>inverseRelationshipId.
                                              client_query (insert_relationship inverseRelationshipId m2
                                                (the (if 0 < length newTypeResult then hd newTypeResult else None)) m1))
                                       else io_return ())
                               else io_return ()
                          else io_return ())
                         (\<lambda>_. io_bind client_commit
                           (\<lambda>_. respond 200 (Json_relationship (hd result)))))))))
           (\<lambda>r. unanswered 404)"
        proof (rule hoare_bind[where R = "\<lambda>x. has_row i oldRel"], goal_cases)
          case 1
          show ?case
            by (auto simp: hoare_def has_row_def unanswered_def prim_defs sql_defs split: option.splits)
        next
          case (2 oldInverseTypeResult)
          show ?case
          proof (rule hoare_bind[where R = "\<lambda>x. has_row i oldRel"], goal_cases)
            case 1
            show ?case
              by (rule drop_block_keeps_row)
          next
            case (2 u'')
            show ?case
            proof (rule hoare_bind[where R = "\<lambda>result w. unanswered 404 w \<and> result \<noteq> []"], goal_cases)
              case 1
              show ?case
                by (auto simp: hoare_def has_row_def unanswered_def prim_defs sql_defs Let_def
                      filter_empty_conv r_id_set_relationship split: option.splits)
            next
              case (2 result)
              show ?case
              proof (cases "result = []")
                case True
                then show ?thesis by (simp add: hoare_def)
              next
                case False
                have "keeps (unanswered 404)
                  (io_bind (client_query (select_inverse_type_id t))
                      (\<lambda>newTypeResult.
                        io_bind
                         (if js_truthy (if 0 < length newTypeResult then hd newTypeResult else None)
                          then if the (if 0 < length newTypeResult then hd newTypeResult else None) \<noteq> t \<or> m1 \<noteq> m2
                               then io_bind (client_query (select_relationship_ids m2
                                       (the (if 0 < length newTypeResult then hd newTypeResult else None)) m1))
                                     (\<lambda>existingInverse.
                                       if length existingInverse = 0
                                       then io_bind uuidv4 (\<lambda>inverseRelationshipId.
                                              client_query (insert_relationship inverseRelationshipId m2
                                                (the (if 0 < length newTypeResult then hd newTypeResult else None)) m1))
                                       else io_return ())
                               else io_return ()
                          else io_return ())
                         (\<lambda>_. io_bind client_commit
                           (\<lambda>_. respond 200 (Json_relationship (hd result))))))"
                  by (auto intro!: keeps_intros keeps_unanswered
                        simp del: length_0_conv length_greater_0_conv)
                with False show ?thesis
                  by (simp add: keeps_def hoare_def)
              qed
            qed
          qed
        qed
        then show ?thesis
          using Cons by (simp add: hoare_def)
      qed
    qed
  qed
qed


lemma put_keeps_unanswered:
  "hoare (\<lambda>w. \<exists>r. r \<in> set (relationships (committed w)) \<and> r_id r = i)
     (put_relationships i m1 t m2) (\<lambda>r. unanswered 404)"
  unfolding put_relationships_def
proof (rule hoare_bind[where R = "\<lambda>x w. unanswered 404 w \<and>
          (\<exists>r. r \<in> set (relationships (committed w)) \<and> r_id r = i)"], goal_cases)
  case 1
  show ?case
    by (auto simp: hoare_def unanswered_def new_request_def)
next
  case (2 u)
  have catch: "keeps (unanswered 404) (put_relationships_catch e)" for e
    unfolding put_relationships_catch_def
    by (auto intro!: keeps_intros keeps_unanswered)
  have "hoare (\<lambda>w. unanswered 404 w \<and> (\<exists>r. r \<in> set (relationships (committed w)) \<and> r_id r = i))
     (try_catch (put_relationships_try i m1 t m2) put_relationships_catch) (\<lambda>r. unanswered 404)"
    by (rule hoare_catch[where R = "\<lambda>e. unanswered 404"])
       (rule hoare_weaken[OF put_try_never_404], simp, simp split: sum.splits,
        rule catch[unfolded keeps_def])
  then show ?case
    by (rule hoare_finally)
       (rule hoare_weaken[OF keeps_if_client[OF keeps_unanswered(6), unfolded keeps_def]],
        simp, simp split: sum.splits)
qed

subsection \<open>Runs in which no call fails\<close>

lemma lookup_cases:
  obtains (absent) "filter (\<lambda>rt. rt_id rt = t) (relationship_types db) = []"
  | (null) rt rts where "filter (\<lambda>rt. rt_id rt = t) (relationship_types db) = rt # rts"
      "inverse_type_id rt = None"
  | (empty) rt rts where "filter (\<lambda>rt. rt_id rt = t) (relationship_types db) = rt # rts"
      "inverse_type_id rt = Some []"
  | (declared) rt rts v where "filter (\<lambda>rt. rt_id rt = t) (relationship_types db) = rt # rts"
      "inverse_type_id rt = Some v" "v \<noteq> []"
proof (cases "filter (\<lambda>rt. rt_id rt = t) (relationship_types db)")
  case Nil
  then show ?thesis by (rule absent)
next
  case (Cons rt rts)
  show ?thesis
  proof (cases "inverse_type_id rt")
    case None
    with Cons show ?thesis by (rule null)
  next
    case (Some v)
    with Cons show ?thesis by (cases "v = []") (auto intro: empty declared)
  qed
qed

lemma declared_inverseD:
  "declared_inverse db t = Some v \<Longrightarrow>
   \<exists>rt rts. filter (\<lambda>rt. rt_id rt = t) (relationship_types db) = rt # rts \<and>
     inverse_type_id rt = Some v \<and> v \<noteq> []"
  by (auto simp: declared_inverse_def js_truthy_def split: list.splits if_splits option.splits)

lemma updated_rows:
  "filter (\<lambda>r. r_id r = i) (map (set_relationship i a b c) rs) =
   map (set_relationship i a b c) (filter (\<lambda>r. r_id r = i) rs)"
  by (induction rs) (simp_all add: r_id_set_relationship)

lemma filter_both:
  "filter (\<lambda>x. \<not> matches a b c x \<and> r_id x = i) rs =
   filter (\<lambda>r. \<not> matches a b c r) (filter (\<lambda>r. r_id r = i) rs)"
  by (induction rs) simp_all

lemma first_kept:
  "filter (\<lambda>r. r_id r = i) rs = old # rest \<Longrightarrow> \<not> matches a b c old \<Longrightarrow>
   filter (\<lambda>x. \<not> matches a b c x \<and> r_id x = i) rs = old # filter (\<lambda>r. \<not> matches a b c r) rest"
  by (simp only: filter_both) simp

lemma list_ex_filter: "list_ex P xs = (filter P xs \<noteq> [])"
  by (induction xs) simp_all

lemma post_no_faults:
  assumes "no_faults w"
  shows "stored (after (post_relationships m1 t m2) w) =
           spec_create (declared_inverse (committed w) t) m1 t m2
             (uuid_gen w (uuid_calls w)) (uuid_gen w (Suc (uuid_calls w))) (stored w) \<and>
         trace (after (post_relationships m1 t m2) w) =
           [Acquire, Begin, Commit,
            Respond 201 (Json_message ''Relationship(s) added successfully!''), Release] \<and>
         faults (after (post_relationships m1 t m2) w) = faults w \<and>
         uuid_gen (after (post_relationships m1 t m2) w) = uuid_gen w \<and>
         uuid_calls (after (post_relationships m1 t m2) w) =
           uuid_calls w + (length (stored (after (post_relationships m1 t m2) w)) - length (stored w)) \<and>
         relationship_types (committed (after (post_relationships m1 t m2) w)) =
           relationship_types (committed w)"
proof -
  have nf: "\<And>n. faults w n = None"
    using assms(1) by (simp add: no_faults_def)
  show ?thesis
    unfolding after_def stored_def post_relationships_def post_relationships_try_def
      post_relationships_catch_def
    by (rule lookup_cases[of t "committed w"];
        simp add: io_defs sql_defs nf Let_def js_truthy_def
          spec_create_def spec_inverse_rows_def row_def declared_inverse_def list_ex_filter)
qed

lemma put_no_faults:
  assumes "no_faults w" and sel: "filter (\<lambda>r. r_id r = i) (stored w) = old # rest"
  shows "stored (after (put_relationships i m1 t m2) w) =
           spec_update (declared_inverse (committed w) (relationship_type_id old))
             (declared_inverse (committed w) t) old m1 t m2
             (uuid_gen w (uuid_calls w)) (stored w) \<and>
         trace (after (put_relationships i m1 t m2) w) =
           [Acquire, Begin, Commit,
            Respond 200 (Json_relationship (set_relationship i m1 t m2 old)), Release]"
proof -
  have i: "r_id old = i"
    using filter_eq_ConsD[OF sel] by auto
  have sel': "filter (\<lambda>r. r_id r = i) (relationships (committed w)) = old # rest"
    using sel by (simp add: stored_def)
  have nf: "\<And>n. faults w n = None"
    using assms(1) by (simp add: no_faults_def)
  note fk = first_kept[OF sel' not_own_inverse]
  show ?thesis
    unfolding after_def stored_def put_relationships_def put_relationships_try_def
      put_relationships_catch_def
    by (rule lookup_cases[of "relationship_type_id old" "committed w"];
        rule lookup_cases[of t "committed w"];
        simp add: io_defs sql_defs nf sel' i Let_def js_truthy_def updated_rows fk
          spec_update_def spec_drop_inverse_def spec_inverse_rows_def row_def
          declared_inverse_def list_ex_filter)
qed

lemma delete_no_faults:
  assumes "no_faults w" and sel: "filter (\<lambda>r. r_id r = i) (stored w) = old # rest"
  shows "stored (after (delete_relationships i) w) =
           spec_delete (declared_inverse (committed w) (relationship_type_id old)) old (stored w) \<and>
         trace (after (delete_relationships i) w) =
           [Acquire, Begin, Commit,
            Respond 200 (Json_message ''Relationship(s) deleted successfully!''), Release] \<and>
         faults (after (delete_relationships i) w) = faults w"
proof -
  have i: "r_id old = i"
    using filter_eq_ConsD[OF sel] by auto
  have sel': "filter (\<lambda>r. r_id r = i) (relationships (committed w)) = old # rest"
    using sel by (simp add: stored_def)
  have nf: "\<And>n. faults w n = None"
    using assms(1) by (simp add: no_faults_def)
  show ?thesis
    unfolding after_def stored_def delete_relationships_def delete_relationships_try_def
      delete_relationships_catch_def
    by (rule lookup_cases[of "relationship_type_id old" "committed w"];
        simp add: io_defs sql_defs nf sel' i Let_def js_truthy_def
          spec_delete_def spec_drop_inverse_def declared_inverse_def)
qed

lemma not_found_unchanged:
  assumes sel: "filter (\<lambda>r. r_id r = i) (stored w) = []"
  shows "committed (after (put_relationships i m1 t m2) w) = committed w"
    and "committed (after (delete_relationships i) w) = committed w"
    and "faults (after (delete_relationships i) w) = faults w"
    and "no_faults w \<Longrightarrow> trace (after (put_relationships i m1 t m2) w) =
           [Acquire, Begin, Rollback, Respond 404 relationship_not_found, Release]"
    and "no_faults w \<Longrightarrow> trace (after (delete_relationships i) w) =
           [Acquire, Begin, Rollback, Respond 404 relationship_not_found, Release]"
proof -
  have sel': "filter (\<lambda>r. r_id r = i) (relationships (committed w)) = []"
    using sel by (simp add: stored_def)
  show "committed (after (put_relationships i m1 t m2) w) = committed w"
    unfolding after_def put_relationships_def put_relationships_try_def
      put_relationships_catch_def
    by (simp add: io_defs sql_defs sel' split: option.splits)
  show "committed (after (delete_relationships i) w) = committed w"
    unfolding after_def delete_relationships_def delete_relationships_try_def
      delete_relationships_catch_def
    by (simp add: io_defs sql_defs sel' split: option.splits)
  show "faults (after (delete_relationships i) w) = faults w"
    unfolding after_def delete_relationships_def delete_relationships_try_def
      delete_relationships_catch_def
    by (simp add: io_defs sql_defs sel' split: option.splits)
  show "no_faults w \<Longrightarrow> trace (after (put_relationships i m1 t m2) w) =
           [Acquire, Begin, Rollback, Respond 404 relationship_not_found, Release]"
    unfolding after_def put_relationships_def put_relationships_try_def
      put_relationships_catch_def
    by (simp add: io_defs sql_defs sel' no_faults_def)
  show "no_faults w \<Longrightarrow> trace (after (delete_relationships i) w) =
           [Acquire, Begin, Rollback, Respond 404 relationship_not_found, Release]"
    unfolding after_def delete_relationships_def delete_relationships_try_def
      delete_relationships_catch_def
    by (simp add: io_defs sql_defs sel' no_faults_def)
qed

lemma matches_record:
  "matches a b c \<lparr>r_id = i, member_id_1 = x, relationship_type_id = y, member_id_2 = z\<rparr> =
     (x = a \<and> y = b \<and> z = c)"
  by (simp add: matches_def)

lemma post_atomic:
  assumes lookup: "filter (\<lambda>rt. rt_id rt = t) (relationship_types (committed w)) = rt # rts"
      "inverse_type_id rt = Some v" "v \<noteq> []"
    and nd: "\<not> (v = t \<and> m1 = m2)"
  shows "(committed (after (post_relationships m1 t m2) w) = committed w \<and>
          201 \<notin> set (answers (post_relationships m1 t m2) w)) \<or>
         (answers (post_relationships m1 t m2) w = [201] \<and>
          row (uuid_gen w (uuid_calls w)) m1 t m2 \<in> set (stored (after (post_relationships m1 t m2) w)) \<and>
          filter (matches m2 v m1) (stored (after (post_relationships m1 t m2) w)) \<noteq> [])"
proof -
  have np: "\<not> matches m2 v m1
      \<lparr>r_id = p, member_id_1 = m1, relationship_type_id = t, member_id_2 = m2\<rparr>" for p
    using nd by (auto simp: matches_def)
  have yes: "matches m2 v m1
      \<lparr>r_id = q, member_id_1 = m2, relationship_type_id = v, member_id_2 = m1\<rparr>" for q
    by (simp add: matches_def)
  show ?thesis
  proof (cases "v = t")
    case True
    with nd have ne: "m1 \<noteq> m2" by simp
    show ?thesis
      unfolding after_def answers_def stored_def post_relationships_def
        post_relationships_try_def post_relationships_catch_def
      by (simp add: io_defs sql_defs lookup js_truthy_def row_def np yes ne
            split: option.splits)
  next
    case False
    show ?thesis
      unfolding after_def answers_def stored_def post_relationships_def
        post_relationships_try_def post_relationships_catch_def
      by (simp add: io_defs sql_defs lookup js_truthy_def row_def np yes False
            split: option.splits)
  qed
qed

subsection \<open>A failing call is followed by the rollback\<close>

lemma fault_step:
  assumes "first_fault w0 k" "before_fault w0 k w"
  shows "(faults w (calls w) = None \<and> Suc (calls w) \<le> calls w0 + k) \<or>
         (faults w (calls w) \<noteq> None \<and> calls w = calls w0 + k)"
proof (cases "calls w = calls w0 + k")
  case True
  with assms show ?thesis by (simp add: first_fault_def before_fault_def)
next
  case False
  with assms(2) obtain j where j: "calls w = calls w0 + j" "j < k"
    by (auto simp: before_fault_def intro: that[of "calls w - calls w0"])
  with assms show ?thesis by (auto simp: first_fault_def before_fault_def)
qed

lemma careful_query:
  assumes ff: "first_fault w0 k" and total: "\<And>db. \<exists>y. stmt db = Inr y"
  shows "careful w0 k (client_query stmt)"
  unfolding careful_def hoare_def
proof (intro allI impI)
  fix w assume b: "before_fault w0 k w"
  then have c: "client w" by (simp add: before_fault_def in_tx_def)
  obtain x db where st: "stmt (current w) = Inr (x, db)"
    using total[of "current w"] by (cases "stmt (current w)") auto
  from fault_step[OF ff b] show "case fst (client_query stmt w) of
      Inl e \<Rightarrow> at_fault w0 k (snd (client_query stmt w))
    | Inr x \<Rightarrow> before_fault w0 k (snd (client_query stmt w))"
    using b c st
    by (auto simp: client_query_def on_client_def db_call_def before_fault_def at_fault_def
          in_tx_def)
qed

lemma careful_tx:
  assumes ff: "first_fault w0 k"
  shows "careful w0 k client_begin" "careful w0 k client_commit" "careful w0 k client_rollback"
proof -
  have *: "careful w0 k (on_client (db_call (\<lambda>w. (Inr (), g w))))"
    if g: "\<And>w. client (g w) = client w \<and> faults (g w) = faults w \<and> calls (g w) = calls w \<and>
             (\<exists>e \<in> tx_events. trace (g w) = trace w @ [e])" for g :: "world \<Rightarrow> world"
    unfolding careful_def hoare_def
  proof (intro allI impI)
    fix w assume b: "before_fault w0 k w"
    then have c: "client w" by (simp add: before_fault_def in_tx_def)
    from g[of "w\<lparr>calls := Suc (calls w)\<rparr>"] obtain e where
      e: "e \<in> tx_events" "trace (g (w\<lparr>calls := Suc (calls w)\<rparr>)) = trace w @ [e]"
      by auto
    from fault_step[OF ff b] show "case fst (on_client (db_call (\<lambda>w. (Inr (), g w))) w) of
        Inl e \<Rightarrow> at_fault w0 k (snd (on_client (db_call (\<lambda>w. (Inr (), g w))) w))
      | Inr x \<Rightarrow> before_fault w0 k (snd (on_client (db_call (\<lambda>w. (Inr (), g w))) w))"
      using b c e g[of "w\<lparr>calls := Suc (calls w)\<rparr>"]
      by (auto simp: on_client_def db_call_def before_fault_def at_fault_def in_tx_def)
  qed
  show "careful w0 k client_begin" "careful w0 k client_commit" "careful w0 k client_rollback"
    unfolding client_begin_def client_commit_def client_rollback_def
    by (rule *; simp add: tx_events_def)+
qed

lemma careful_pure: "careful w0 k uuidv4" "careful w0 k (io_return x)"
  by (auto simp: careful_def hoare_def uuidv4_def io_return_def before_fault_def in_tx_def)

lemma careful_bind:
  "careful w0 k m \<Longrightarrow> (\<And>x. careful w0 k (f x)) \<Longrightarrow> careful w0 k (io_bind m f)"
  unfolding careful_def
  by (rule hoare_bind[where R = "\<lambda>x. before_fault w0 k"]) (auto simp: hoare_def split: sum.splits)

lemma finishing_bind:
  "careful w0 k m \<Longrightarrow> (\<And>x. finishing w0 k S (f x)) \<Longrightarrow> finishing w0 k S (io_bind m f)"
  unfolding careful_def finishing_def
  by (rule hoare_bind[where R = "\<lambda>x. before_fault w0 k"]) (auto simp: hoare_def split: sum.splits)

lemma finishing_respond: "s \<in> S \<Longrightarrow> finishing w0 k S (respond s b)"
  by (auto simp: finishing_def hoare_def respond_def before_fault_def in_tx_def answered_def)

lemma total_sql:
  "\<exists>y. insert_relationship i a b c db = Inr y"
  "\<exists>y. select_inverse_type_id t db = Inr y"
  "\<exists>y. select_relationship_ids a b c db = Inr y"
  "\<exists>y. select_relationship i db = Inr y"
  "\<exists>y. delete_matching a b c db = Inr y"
  "\<exists>y. delete_relationship i db = Inr y"
  "\<exists>y. update_relationship a b c i db = Inr y"
  by (simp_all add: sql_defs Let_def)

lemma try_fault:
  assumes ff: "first_fault w0 k" and k: "0 < k" and f: "\<And>x. finishing w0 k S (f x)"
  shows "hoare (\<lambda>w. starting w \<and> faults w = faults w0 \<and> calls w = calls w0)
           (io_bind pool_connect f)
           (\<lambda>r w. case r of Inl e \<Rightarrow> at_fault w0 k w | Inr x \<Rightarrow> answered S w)"
proof (rule hoare_bind[where R = "\<lambda>x. before_fault w0 k"])
  fix x
  show "hoare (before_fault w0 k) (f x)
          (\<lambda>r w. case r of Inl e \<Rightarrow> at_fault w0 k w | Inr x \<Rightarrow> answered S w)"
    using f[of x] by (simp add: finishing_def)
next
  from ff k have "faults w0 (calls w0) = None"
    by (auto simp: first_fault_def dest: spec[of _ 0])
  then show "hoare (\<lambda>w. starting w \<and> faults w = faults w0 \<and> calls w = calls w0) pool_connect
     (\<lambda>r w. case r of
        Inl e \<Rightarrow> (case Inl e of Inl e \<Rightarrow> at_fault w0 k w | Inr x \<Rightarrow> answered S w)
      | Inr x \<Rightarrow> before_fault w0 k w)"
    using k
    by (auto simp: hoare_def starting_def before_fault_def in_tx_def pool_connect_def db_call_def)
qed

lemma catch_fault:
  assumes "faults w0 (calls w0 + Suc k) = None"
  shows "hoare (at_fault w0 k)
           (io_bind (if_client client_rollback) (\<lambda>_. respond 500 internal_server_error))
           (\<lambda>r w. r = Inr () \<and> rolled_back w \<and> current w = committed w)"
    and "hoare (at_fault w0 k)
           (io_bind client_rollback (\<lambda>_. respond 500 internal_server_error))
           (\<lambda>r w. r = Inr () \<and> rolled_back w \<and> current w = committed w)"
  using assms
  by (auto simp: hoare_def at_fault_def in_tx_def rolled_back_def io_bind_def prim_defs)

lemma handler_fault:
  assumes body: "hoare (\<lambda>w. starting w \<and> faults w = faults w0 \<and> calls w = calls w0) body
      (\<lambda>r w. case r of Inl e \<Rightarrow> at_fault w0 k w | Inr x \<Rightarrow> answered S w)"
    and handler: "\<And>e. hoare (at_fault w0 k) (handler e)
      (\<lambda>r w. r = Inr () \<and> rolled_back w \<and> current w = committed w)"
  shows "hoare (\<lambda>w. w = w0)
     (io_bind new_request (\<lambda>_. try_finally (try_catch body handler) (if_client client_release)))
     (\<lambda>r w. try_completed S (trace w) \<or>
             (rolled_back_then_500 (trace w) \<and> current w = committed w))"
proof (rule hoare_bind[where R = "\<lambda>x w. starting w \<and> faults w = faults w0 \<and> calls w = calls w0"])
  fix u :: unit
  have tc: "hoare (\<lambda>w. starting w \<and> faults w = faults w0 \<and> calls w = calls w0)
      (try_catch body handler)
      (\<lambda>r w. answered S w \<or> (rolled_back w \<and> current w = committed w))"
  proof (rule hoare_catch[where R = "\<lambda>e. at_fault w0 k"])
    fix e
    show "hoare (at_fault w0 k) (handler e)
       (\<lambda>r w. answered S w \<or> (rolled_back w \<and> current w = committed w))"
      using handler[of e] by (rule hoare_weaken) simp_all
  qed (rule hoare_weaken[OF body], simp_all split: sum.splits)
  show "hoare (\<lambda>w. starting w \<and> faults w = faults w0 \<and> calls w = calls w0)
     (try_finally (try_catch body handler) (if_client client_release))
     (\<lambda>r w. try_completed S (trace w) \<or>
             (rolled_back_then_500 (trace w) \<and> current w = committed w))"
    by (rule hoare_finally[OF tc])
       (auto simp: hoare_def answered_def rolled_back_def try_completed_def
          rolled_back_then_500_def if_client_def client_release_def)
qed (simp add: hoare_def new_request_def starting_def)

lemmas careful_intros = finishing_bind finishing_respond careful_bind careful_query careful_tx
  careful_pure total_sql

lemma post_fault:
  assumes "first_fault w k" "0 < k" "faults w (calls w + Suc k) = None"
  shows "try_completed {201} (trace (after (post_relationships m1 t m2) w)) \<or>
         (rolled_back_then_500 (trace (after (post_relationships m1 t m2) w)) \<and>
          current (after (post_relationships m1 t m2) w) =
            committed (after (post_relationships m1 t m2) w))"
proof -
  have "hoare (\<lambda>w'. w' = w) (post_relationships m1 t m2)
     (\<lambda>r w. try_completed {201} (trace w) \<or>
             (rolled_back_then_500 (trace w) \<and> current w = committed w))"
    unfolding post_relationships_def post_relationships_try_def post_relationships_catch_def
    by (rule handler_fault[where k = k], rule try_fault[OF assms(1,2)])
       (auto intro!: careful_intros assms(1) catch_fault(2)[OF assms(3)]
             simp: Let_def simp del: length_0_conv length_greater_0_conv)
  from hoareD[OF this, of w] show ?thesis
    by (simp add: after_def)
qed



subsection \<open>Facts about the events and about deleting twice\<close>



lemma spec_delete_ids: "r \<in> set (spec_delete invT old rows) \<Longrightarrow> r_id r \<noteq> r_id old"
  by (auto simp: spec_delete_def spec_drop_inverse_def split: option.splits if_splits)

lemma delete_twice:
  assumes "no_faults w"
  shows "trace (after (delete_relationships i) (after (delete_relationships i) w)) =
           [Acquire, Begin, Rollback, Respond 404 relationship_not_found, Release] \<and>
         committed (after (delete_relationships i) (after (delete_relationships i) w)) =
           committed (after (delete_relationships i) w)"
proof -
  let ?w1 = "after (delete_relationships i) w"
  have "filter (\<lambda>r. r_id r = i) (stored ?w1) = [] \<and> faults ?w1 = faults w"
  proof (cases "filter (\<lambda>r. r_id r = i) (stored w)")
    case Nil
    from not_found_unchanged(2,3)[OF Nil] Nil show ?thesis
      by (simp add: stored_def)
  next
    case (Cons old rest)
    have i: "r_id old = i"
      using filter_eq_ConsD[OF Cons] by auto
    from delete_no_faults[OF assms Cons] spec_delete_ids[of _ _ old "stored w"] i
    show ?thesis
      by (auto simp: filter_empty_conv)
  qed
  then have sel: "filter (\<lambda>r. r_id r = i) (stored ?w1) = []" and nf: "no_faults ?w1"
    using assms by (simp_all add: no_faults_def)
  from not_found_unchanged(2)[OF sel] not_found_unchanged(5)[OF sel nf] show ?thesis
    by simp
qed

text \<open>
  The \<^verbatim>\<open>catch\<close> of the create handler calls \<^verbatim>\<open>client.query("ROLLBACK")\<close> without the
  \<^verbatim>\<open>if (client)\<close> of update and delete. When the pool cannot connect, that call
  throws a TypeError inside the \<^verbatim>\<open>catch\<close>: the request gets no answer at all.
\<close>

lemma post_connect_failure_unanswered:
  "post_relationships ''A'' ''P'' ''B'' (failing_world 0 []) =
     (Inl TypeError, (failing_world 0 [])\<lparr>calls := 1\<rparr>)"
  by (simp add: post_relationships_def post_relationships_try_def post_relationships_catch_def
        io_defs failing_world_def example_world_def)

section \<open>The claims\<close>

text \<open>
  C1 (as amended). The earlier server rejects a POST with member_id_1 equal to
  member_id_2 with 400 before any write. server.js has no such check: it never answers
  400, and when no call to the store fails it answers 201 and stores what the create
  algorithm gives, the primary row and the inverse row by the rules of create.
\<close>

theorem self_relationship_check:
  assumes "m1 = m2"
  shows "trace (after (post_relationships_v0 m1 m2 t) w) =
           [Respond 400 (Json_error ''Cannot create a relationship with the same member ID.'')] \<and>
         committed (after (post_relationships_v0 m1 m2 t) w) = committed w \<and>
         400 \<notin> set (answers (post_relationships m1 t m2) w) \<and>
         (no_faults w \<longrightarrow>
            answers (post_relationships m1 t m2) w = [201] \<and>
            row (uuid_gen w (uuid_calls w)) m1 t m2 \<in>
              set (stored (after (post_relationships m1 t m2) w)) \<and>
            stored (after (post_relationships m1 t m2) w) =
              spec_create (declared_inverse (committed w) t) m1 t m2
                (uuid_gen w (uuid_calls w)) (uuid_gen w (Suc (uuid_calls w))) (stored w))"
proof -
  have v0: "trace (after (post_relationships_v0 m1 m2 t) w) =
           [Respond 400 (Json_error ''Cannot create a relationship with the same member ID.'')] \<and>
         committed (after (post_relationships_v0 m1 m2 t) w) = committed w"
    using assms
    by (simp add: after_def post_relationships_v0_def post_relationships_v0_try_def io_defs)
  have "set (answers (post_relationships m1 t m2) w) \<subseteq> {201, 500}"
    using post_shape[of m1 t m2 w] closed_statuses[of "{201}"]
    by (auto simp: answers_def)
  then have no400: "400 \<notin> set (answers (post_relationships m1 t m2) w)"
    by auto
  have ok: "no_faults w \<Longrightarrow>
      answers (post_relationships m1 t m2) w = [201] \<and>
      row (uuid_gen w (uuid_calls w)) m1 t m2 \<in> set (stored (after (post_relationships m1 t m2) w)) \<and>
      stored (after (post_relationships m1 t m2) w) =
        spec_create (declared_inverse (committed w) t) m1 t m2
          (uuid_gen w (uuid_calls w)) (uuid_gen w (Suc (uuid_calls w))) (stored w)"
    using post_no_faults[of w m1 t m2]
    by (simp add: answers_def spec_create_def)
  from v0 no400 ok show ?thesis
    by blast
qed

theorem self_relationship_check_witness:
  "''A'' = ''A'' \<and> no_faults (example_world [row ''x'' ''A'' ''C'' ''A'']) \<and>
   answers (post_relationships_v0 ''A'' ''A'' ''P'') (example_world [row ''x'' ''A'' ''C'' ''A'']) = [400] \<and>
   answers (post_relationships ''A'' ''P'' ''A'') (example_world [row ''x'' ''A'' ''C'' ''A'']) = [201] \<and>
   stored (after (post_relationships ''A'' ''P'' ''A'') (example_world [row ''x'' ''A'' ''C'' ''A''])) =
     [row ''x'' ''A'' ''C'' ''A'', row ''u'' ''A'' ''P'' ''A'']"
proof -
  have h: "no_faults (example_world [row ''x'' ''A'' ''C'' ''A''])"
    by (simp add: no_faults_def example_world_def)
  from self_relationship_check[of "''A''" "''A''" "''P''" "example_world [row ''x'' ''A'' ''C'' ''A'']"] h
  show ?thesis
    by (simp add: answers_def spec_create_def spec_inverse_rows_def declared_inverse_def
          js_truthy_def matches_def row_def stored_def example_world_def example_db_def
          example_types_def)
qed

text \<open>
  C1 as stated fails on server.js: the POST of (A, Spouse, A) is answered with 201 and the
  row is stored.
\<close>

theorem self_relationship_accepted:
  "answers (post_relationships ''A'' ''S'' ''A'') (example_world []) = [201] \<and>
   stored (after (post_relationships ''A'' ''S'' ''A'') (example_world [])) =
     [row ''u'' ''A'' ''S'' ''A'']"
  by (simp add: answers_def after_def stored_def post_relationships_def
        post_relationships_try_def post_relationships_catch_def io_defs sql_defs Let_def
        matches_def js_truthy_def example_world_def example_db_def example_types_def row_def)

text \<open>
  C2. A create whose type declares an inverse, outside the self-loop case, is atomic:
  whatever call to the store fails, either the stored state is what it was (the primary
  row is not stored and the answer is not 201), or the answer is 201 and both the primary
  row and a row (object, inverse type, subject) are stored. A failure at a step after the
  connection is acquired rolls the transaction back: unless the ROLLBACK call fails too,
  the events end with the rollback, the 500 and the release, and nothing is left pending.
\<close>

theorem create_atomic:
  assumes "declared_inverse (committed w) t = Some v"
    and "\<not> (v = t \<and> m1 = m2)"
    and "uuid_gen w (uuid_calls w) \<notin> r_id ` set (stored w)"
  shows "((committed (after (post_relationships m1 t m2) w) = committed w \<and>
           row (uuid_gen w (uuid_calls w)) m1 t m2 \<notin> set (stored (after (post_relationships m1 t m2) w)) \<and>
           201 \<notin> set (answers (post_relationships m1 t m2) w)) \<or>
          (answers (post_relationships m1 t m2) w = [201] \<and>
           row (uuid_gen w (uuid_calls w)) m1 t m2 \<in> set (stored (after (post_relationships m1 t m2) w)) \<and>
           list_ex (matches m2 v m1) (stored (after (post_relationships m1 t m2) w)))) \<and>
         (201 \<notin> set (answers (post_relationships m1 t m2) w) \<and>
          first_fault w k \<and> 0 < k \<and> faults w (calls w + Suc k) = None \<longrightarrow>
            rolled_back_then_500 (trace (after (post_relationships m1 t m2) w)) \<and>
            current (after (post_relationships m1 t m2) w) = committed w) \<and>
         (no_faults w \<longrightarrow> answers (post_relationships m1 t m2) w = [201])"
proof -
  from declared_inverseD[OF assms(1)] obtain rt rts where
    lookup: "filter (\<lambda>rt. rt_id rt = t) (relationship_types (committed w)) = rt # rts"
      "inverse_type_id rt = Some v" "v \<noteq> []"
    by blast
  have fresh: "row (uuid_gen w (uuid_calls w)) m1 t m2 \<notin> set (stored w)"
    using assms(3) by (auto simp: row_def image_iff)
  have atomic: "(committed (after (post_relationships m1 t m2) w) = committed w \<and>
           row (uuid_gen w (uuid_calls w)) m1 t m2 \<notin> set (stored (after (post_relationships m1 t m2) w)) \<and>
           201 \<notin> set (answers (post_relationships m1 t m2) w)) \<or>
          (answers (post_relationships m1 t m2) w = [201] \<and>
           row (uuid_gen w (uuid_calls w)) m1 t m2 \<in> set (stored (after (post_relationships m1 t m2) w)) \<and>
           list_ex (matches m2 v m1) (stored (after (post_relationships m1 t m2) w)))"
    using post_atomic[OF lookup assms(2)] fresh by (auto simp: list_ex_filter stored_def)
  have answered_201: "try_completed {201} tr \<Longrightarrow> 201 \<in> set (statuses tr)" for tr
    by (auto simp: try_completed_def statuses_append)
  have rollback: "rolled_back_then_500 (trace (after (post_relationships m1 t m2) w)) \<and>
      current (after (post_relationships m1 t m2) w) = committed w"
    if "201 \<notin> set (answers (post_relationships m1 t m2) w)" "first_fault w k" "0 < k"
      "faults w (calls w + Suc k) = None"
    using post_fault[OF that(2-4), of m1 t m2] that(1) atomic answered_201
    by (auto simp: answers_def)
  have ok: "no_faults w \<Longrightarrow> answers (post_relationships m1 t m2) w = [201]"
    using post_no_faults[of w m1 t m2] by (simp add: answers_def)
  from atomic rollback ok show ?thesis
    by blast
qed

theorem create_atomic_witness:
  "declared_inverse (committed (failing_world 5 [])) ''P'' = Some ''C'' \<and>
   \<not> (''C'' = ''P'' \<and> ''A'' = ''B'') \<and>
   uuid_gen (failing_world 5 []) (uuid_calls (failing_world 5 [])) \<notin> r_id ` set (stored (failing_world 5 [])) \<and>
   first_fault (failing_world 5 []) 5 \<and>
   faults (failing_world 5 []) (calls (failing_world 5 []) + Suc 5) = None \<and>
   committed (after (post_relationships ''A'' ''P'' ''B'') (failing_world 5 [])) = committed (failing_world 5 []) \<and>
   201 \<notin> set (answers (post_relationships ''A'' ''P'' ''B'') (failing_world 5 [])) \<and>
   rolled_back_then_500 (trace (after (post_relationships ''A'' ''P'' ''B'') (failing_world 5 []))) \<and>
   current (after (post_relationships ''A'' ''P'' ''B'') (failing_world 5 [])) = committed (failing_world 5 [])"
proof -
  have h: "declared_inverse (committed (failing_world 5 [])) ''P'' = Some ''C''"
    "\<not> (''C'' = ''P'' \<and> ''A'' = ''B'')"
    "uuid_gen (failing_world 5 []) (uuid_calls (failing_world 5 [])) \<notin> r_id ` set (stored (failing_world 5 []))"
    by (simp_all add: declared_inverse_def js_truthy_def failing_world_def example_world_def
          example_db_def example_types_def stored_def)
  have f: "first_fault (failing_world 5 []) 5"
    "faults (failing_world 5 []) (calls (failing_world 5 []) + Suc 5) = None"
    by (simp_all add: first_fault_def failing_world_def example_world_def)
  have a: "answers (post_relationships ''A'' ''P'' ''B'') (failing_world 5 []) = [500]"
    by (simp add: answers_def after_def post_relationships_def post_relationships_try_def
          post_relationships_catch_def io_defs sql_defs Let_def matches_def js_truthy_def failing_world_def
          example_world_def example_db_def example_types_def eval_nat_numeral)
  from create_atomic[OF h, where k = 5] h f a show ?thesis
    by simp
qed

text \<open>
  C3. An update of an existing relationship, when no call fails, stores what the update
  algorithm of the specification gives: the rows matching the old inverse are dropped
  unless the old relationship is a self-loop of a self-inverse type, the primary row
  takes the new values, and the new inverse is added by the rules of create. The answer
  is 200 with the updated primary row.
\<close>

theorem update_reconciles:
  assumes "no_faults w" and "filter (\<lambda>r. r_id r = i) (stored w) = old # rest"
  shows "stored (after (put_relationships i m1 t m2) w) =
           spec_update (declared_inverse (committed w) (relationship_type_id old))
             (declared_inverse (committed w) t) old m1 t m2
             (uuid_gen w (uuid_calls w)) (stored w) \<and>
         trace (after (put_relationships i m1 t m2) w) =
           [Acquire, Begin, Commit,
            Respond 200 (Json_relationship (set_relationship i m1 t m2 old)), Release]"
  using assms by (rule put_no_faults)

theorem update_reconciles_witness:
  "no_faults (example_world [row ''x'' ''A'' ''P'' ''B'', row ''y'' ''B'' ''C'' ''A'']) \<and>
   filter (\<lambda>r. r_id r = ''x'')
     (stored (example_world [row ''x'' ''A'' ''P'' ''B'', row ''y'' ''B'' ''C'' ''A''])) =
     [row ''x'' ''A'' ''P'' ''B''] \<and>
   stored (after (put_relationships ''x'' ''A'' ''S'' ''D'')
     (example_world [row ''x'' ''A'' ''P'' ''B'', row ''y'' ''B'' ''C'' ''A''])) =
     [row ''x'' ''A'' ''S'' ''D'', row ''u'' ''D'' ''S'' ''A'']"
proof -
  have h: "no_faults (example_world [row ''x'' ''A'' ''P'' ''B'', row ''y'' ''B'' ''C'' ''A''])"
    "filter (\<lambda>r. r_id r = ''x'')
     (stored (example_world [row ''x'' ''A'' ''P'' ''B'', row ''y'' ''B'' ''C'' ''A''])) =
     [row ''x'' ''A'' ''P'' ''B'']"
    by (simp_all add: no_faults_def example_world_def example_db_def stored_def row_def)
  from update_reconciles[OF h, of "''A''" "''S''" "''D''"] h show ?thesis
    by (simp add: spec_update_def spec_drop_inverse_def spec_inverse_rows_def
          declared_inverse_def js_truthy_def set_relationship_def matches_def
          example_world_def example_db_def example_types_def stored_def row_def)
qed




text \<open>
  C5 (as amended). A create of (A, T, A) for a self-inverse type T stores exactly one row.
  For a type that declares an inverse, the inverse row is left out if and only if the
  inverse type is the type and the subject is the object, or a row
  (object, inverse type, subject) is already stored.
\<close>

theorem create_inverse_rule:
  assumes "no_faults w" and "declared_inverse (committed w) t = Some v"
  shows "stored (after (post_relationships m1 t m2) w) =
           stored w @ [row (uuid_gen w (uuid_calls w)) m1 t m2] @
             (if (v = t \<and> m1 = m2) \<or> list_ex (matches m2 v m1) (stored w) then []
              else [row (uuid_gen w (Suc (uuid_calls w))) m2 v m1]) \<and>
         (v = t \<and> m1 = m2 \<longrightarrow>
            stored (after (post_relationships m1 t m2) w) =
              stored w @ [row (uuid_gen w (uuid_calls w)) m1 t m2])"
proof -
  have "\<not> (v = t \<and> m1 = m2) \<Longrightarrow>
      \<not> matches m2 v m1 (row (uuid_gen w (uuid_calls w)) m1 t m2)"
    by (auto simp: matches_def row_def)
  then show ?thesis
    using post_no_faults[OF assms(1), of m1 t m2]
    by (auto simp: assms(2) spec_create_def spec_inverse_rows_def)
qed

theorem create_inverse_rule_witness:
  "no_faults (example_world []) \<and>
   declared_inverse (committed (example_world [])) ''S'' = Some ''S'' \<and>
   stored (after (post_relationships ''A'' ''S'' ''A'') (example_world [])) =
     [row ''u'' ''A'' ''S'' ''A'']"
proof -
  have h: "no_faults (example_world [])"
    "declared_inverse (committed (example_world [])) ''S'' = Some ''S''"
    by (simp_all add: no_faults_def declared_inverse_def js_truthy_def example_world_def
          example_db_def example_types_def)
  from create_inverse_rule[OF h, of "''A''" "''A''"] h show ?thesis
    by (simp add: example_world_def example_db_def stored_def)
qed

text \<open>
  C5 as stated fails: with (B, Spouse, A) stored, creating (A, Spouse, B) adds the primary
  row only, although the members differ.
\<close>

theorem inverse_skipped_for_distinct_members:
  "declared_inverse (committed (example_world [row ''x'' ''B'' ''S'' ''A''])) ''S'' = Some ''S'' \<and>
   ''A'' \<noteq> ''B'' \<and>
   stored (after (post_relationships ''A'' ''S'' ''B'') (example_world [row ''x'' ''B'' ''S'' ''A''])) =
     [row ''x'' ''B'' ''S'' ''A'', row ''u'' ''A'' ''S'' ''B'']"
  by (simp add: after_def stored_def post_relationships_def post_relationships_try_def
        post_relationships_catch_def io_defs sql_defs Let_def matches_def js_truthy_def
        declared_inverse_def example_world_def example_db_def example_types_def row_def)

text \<open>
  C6. A delete of an existing relationship (A, X, B) whose type declares the inverse
  type V, outside the self-loop case, removes in one transaction the rows with the
  identifier and the rows matching (B, V, A); when no row matches, only the rows with the
  identifier go, and the answer is 200 all the same.
\<close>

theorem delete_removes_inverse:
  assumes "no_faults w" and "filter (\<lambda>r. r_id r = i) (stored w) = old # rest"
    and "declared_inverse (committed w) (relationship_type_id old) = Some v"
    and "\<not> (v = relationship_type_id old \<and> member_id_1 old = member_id_2 old)"
  shows "stored (after (delete_relationships i) w) =
           filter (\<lambda>r. \<not> matches (member_id_2 old) v (member_id_1 old) r)
             (filter (\<lambda>r. r_id r \<noteq> i) (stored w)) \<and>
         trace (after (delete_relationships i) w) =
           [Acquire, Begin, Commit,
            Respond 200 (Json_message ''Relationship(s) deleted successfully!''), Release] \<and>
         (\<not> list_ex (matches (member_id_2 old) v (member_id_1 old)) (stored w) \<longrightarrow>
            stored (after (delete_relationships i) w) = filter (\<lambda>r. r_id r \<noteq> i) (stored w))"
proof -
  have i: "r_id old = i"
    using filter_eq_ConsD[OF assms(2)] by auto
  have none: "\<not> list_ex P xs \<Longrightarrow> filter (\<lambda>x. Q x \<and> \<not> P x) xs = filter Q xs" for P Q
    and xs :: "relationship list"
    by (induction xs) auto
  show ?thesis
    using delete_no_faults[OF assms(1,2)] assms(3,4)
    by (auto simp: spec_delete_def spec_drop_inverse_def i none)
qed

theorem delete_removes_inverse_witness:
  "no_faults (example_world [row ''x'' ''A'' ''P'' ''B'', row ''y'' ''B'' ''C'' ''A'']) \<and>
   filter (\<lambda>r. r_id r = ''x'')
     (stored (example_world [row ''x'' ''A'' ''P'' ''B'', row ''y'' ''B'' ''C'' ''A''])) =
     [row ''x'' ''A'' ''P'' ''B''] \<and>
   declared_inverse (committed (example_world [row ''x'' ''A'' ''P'' ''B'', row ''y'' ''B'' ''C'' ''A'']))
     (relationship_type_id (row ''x'' ''A'' ''P'' ''B'')) = Some ''C'' \<and>
   stored (after (delete_relationships ''x'')
     (example_world [row ''x'' ''A'' ''P'' ''B'', row ''y'' ''B'' ''C'' ''A''])) = []"
proof -
  have h: "no_faults (example_world [row ''x'' ''A'' ''P'' ''B'', row ''y'' ''B'' ''C'' ''A''])"
    "filter (\<lambda>r. r_id r = ''x'')
     (stored (example_world [row ''x'' ''A'' ''P'' ''B'', row ''y'' ''B'' ''C'' ''A''])) =
     [row ''x'' ''A'' ''P'' ''B'']"
    "declared_inverse (committed (example_world [row ''x'' ''A'' ''P'' ''B'', row ''y'' ''B'' ''C'' ''A'']))
     (relationship_type_id (row ''x'' ''A'' ''P'' ''B'')) = Some ''C''"
    "\<not> (''C'' = relationship_type_id (row ''x'' ''A'' ''P'' ''B'') \<and>
        member_id_1 (row ''x'' ''A'' ''P'' ''B'') = member_id_2 (row ''x'' ''A'' ''P'' ''B''))"
    by (simp_all add: no_faults_def declared_inverse_def js_truthy_def example_world_def
          example_db_def example_types_def stored_def row_def)
  from delete_removes_inverse[OF h] h(1-3) show ?thesis
    by (simp add: example_world_def example_db_def stored_def row_def matches_def)
qed

text \<open>
  C7. An update or a delete whose identifier matches no stored row leaves the stored
  state as it was, whatever call to the store fails; when no call fails the transaction
  is rolled back and the answer is 404. Deleting the same relationship twice is safe:
  the second delete rolls back, answers 404 and changes nothing.
\<close>

theorem not_found_no_effect:
  assumes "i \<notin> r_id ` set (stored w)"
  shows "committed (after (put_relationships i m1 t m2) w) = committed w \<and>
         committed (after (delete_relationships i) w) = committed w \<and>
         (no_faults w \<longrightarrow>
            trace (after (put_relationships i m1 t m2) w) =
              [Acquire, Begin, Rollback, Respond 404 relationship_not_found, Release] \<and>
            trace (after (delete_relationships i) w) =
              [Acquire, Begin, Rollback, Respond 404 relationship_not_found, Release]) \<and>
         (no_faults w' \<longrightarrow>
            trace (after (delete_relationships i') (after (delete_relationships i') w')) =
              [Acquire, Begin, Rollback, Respond 404 relationship_not_found, Release] \<and>
            committed (after (delete_relationships i') (after (delete_relationships i') w')) =
              committed (after (delete_relationships i') w'))"
proof -
  from assms have sel: "filter (\<lambda>r. r_id r = i) (stored w) = []"
    by (auto simp: filter_empty_conv)
  show ?thesis
    using not_found_unchanged(1)[OF sel, of m1 t m2] not_found_unchanged(2)[OF sel]
      not_found_unchanged(4)[OF sel, of m1 t m2] not_found_unchanged(5)[OF sel]
      delete_twice[of w' i']
    by simp
qed

theorem not_found_no_effect_witness:
  "''z'' \<notin> r_id ` set (stored (example_world [row ''x'' ''A'' ''P'' ''B''])) \<and>
   no_faults (example_world [row ''x'' ''A'' ''P'' ''B'']) \<and>
   committed (after (put_relationships ''z'' ''A'' ''S'' ''B'') (example_world [row ''x'' ''A'' ''P'' ''B''])) =
     committed (example_world [row ''x'' ''A'' ''P'' ''B'']) \<and>
   answers (delete_relationships ''z'') (example_world [row ''x'' ''A'' ''P'' ''B'']) = [404] \<and>
   answers (delete_relationships ''x'')
     (after (delete_relationships ''x'') (example_world [row ''x'' ''A'' ''P'' ''B''])) = [404]"
proof -
  have h: "''z'' \<notin> r_id ` set (stored (example_world [row ''x'' ''A'' ''P'' ''B'']))"
    "no_faults (example_world [row ''x'' ''A'' ''P'' ''B''])"
    by (simp_all add: no_faults_def example_world_def example_db_def stored_def row_def)
  from not_found_no_effect[OF h(1), of "''A''" "''S''" "''B''"
      "example_world [row ''x'' ''A'' ''P'' ''B'']" "''x''"] h
  show ?thesis
    by (simp add: answers_def)
qed




text \<open>
  C9. A DELETE of a member that a relationship row references changes nothing in the
  store: no relationship row goes and the member row stays. The foreign-key violation
  (code 23503) is answered with 400 and the message about linked relationships; a failure
  with another code is answered with 500.
\<close>

theorem member_delete_protected:
  assumes "i \<in> m_id ` set (members (committed w))" and "referenced (committed w) i"
  shows "committed (after (delete_members i) w) = committed w \<and>
         (faults w (calls w) = None \<longrightarrow>
            trace (after (delete_members i) w) = [Respond 400 cannot_delete_member]) \<and>
         (\<forall>e. faults w (calls w) = Some e \<and> e \<noteq> DbError ''23503'' \<longrightarrow>
            trace (after (delete_members i) w) = [Respond 500 internal_server_error]) \<and>
         set (answers (delete_members i) w) \<subseteq> {400, 500}"
proof -
  from assms(1) have "filter (\<lambda>m. m_id m = i) (members (committed w)) \<noteq> []"
    by (auto simp: filter_empty_conv)
  with assms(2) show ?thesis
    by (auto simp: after_def answers_def delete_members_def delete_members_try_def
          delete_members_catch_def delete_member_def io_defs Let_def split: option.splits)
qed

theorem member_delete_protected_witness:
  "''A'' \<in> m_id ` set (members (committed (example_world [row ''x'' ''A'' ''P'' ''B'']))) \<and>
   referenced (committed (example_world [row ''x'' ''A'' ''P'' ''B''])) ''A'' \<and>
   faults (example_world [row ''x'' ''A'' ''P'' ''B''])
     (calls (example_world [row ''x'' ''A'' ''P'' ''B''])) = None \<and>
   committed (after (delete_members ''A'') (example_world [row ''x'' ''A'' ''P'' ''B''])) =
     committed (example_world [row ''x'' ''A'' ''P'' ''B'']) \<and>
   trace (after (delete_members ''A'') (example_world [row ''x'' ''A'' ''P'' ''B''])) =
     [Respond 400 cannot_delete_member]"
proof -
  have h: "''A'' \<in> m_id ` set (members (committed (example_world [row ''x'' ''A'' ''P'' ''B''])))"
    "referenced (committed (example_world [row ''x'' ''A'' ''P'' ''B''])) ''A''"
    by (simp_all add: referenced_def example_world_def example_db_def example_member_def row_def)
  have f: "faults (example_world [row ''x'' ''A'' ''P'' ''B''])
     (calls (example_world [row ''x'' ''A'' ''P'' ''B''])) = None"
    by (simp add: example_world_def)
  from member_delete_protected[OF h] h f show ?thesis
    by simp
qed

text \<open>
  C10. In the update handler, when the first read finds a row with the target identifier,
  the NotFound branch after the primary UPDATE is never taken: whatever call to the store
  fails, the request is not answered with 404. The old-inverse delete cannot remove the
  row that was read, because it would match it only in the self-loop case that the guard
  skips.
\<close>

theorem put_second_not_found_unreachable:
  assumes "i \<in> r_id ` set (stored w)"
  shows "404 \<notin> set (answers (put_relationships i m1 t m2) w)"
proof -
  from assms have "\<exists>r. r \<in> set (relationships (committed w)) \<and> r_id r = i"
    by (auto simp: stored_def)
  from hoareD[OF put_keeps_unanswered, where w = w, OF this]
  show ?thesis
    by (simp add: unanswered_def answers_def after_def)
qed

theorem put_second_not_found_unreachable_witness:
  "''u'' \<in> r_id ` set (stored (example_world [row ''u'' ''A'' ''S'' ''A''])) \<and>
   404 \<notin> set (answers (put_relationships ''u'' ''A'' ''P'' ''B'')
                 (example_world [row ''u'' ''A'' ''S'' ''A'']))"
  using put_second_not_found_unreachable
          [of "''u''" "example_world [row ''u'' ''A'' ''S'' ''A'']" "''A''" "''P''" "''B''"]
  by (simp add: stored_def example_world_def example_db_def row_def)

end
